theory Spec2Isabelle
  imports Main "HOL-Library.AList"
begin

section \<open>Offline SQS invoke plugin: the embedding\<close>

text \<open>
  The plugin is one class, \<open>OfflineSQSInvokePlugin\<close>, with three methods: \<open>start\<close>
  (builds \<open>queueHandlers\<close> from the service configuration), \<open>startHttp\<close> (installs the
  handler of \<open>POST /\<close>) and \<open>onMessage\<close> (turns one accepted message into one call of
  the Lambda client). The source reads its configuration and its requests as
  \<open>Record<string, any>\<close>, so the embedding works on arbitrary values of the kind a
  YAML file or a parsed form can hold, and every property access, method call and
  conversion of the source that can throw is a branch of the model.

  What the model leaves out:
  \<^item> text is a list of one-byte characters, each standing for one code unit;
  \<^item> numbers are integers, printed in full decimal notation (as JavaScript prints
    them below \<open>10^21\<close>);
  \<^item> an object is the list of its own enumerable properties in the order
    \<open>Object.entries\<close> yields them, and a new key of \<open>queueHandlers\<close> goes to the end
    of that list, also when it is a canonical array index, which JavaScript would
    enumerate first; only the order of the final summary lines depends on that;
  \<^item> a log line is a severity and the template that produced it, with the
    interpolated texts as arguments, instead of one rendered text;
  \<^item> the Lambda client, the JSON encoder and the text encoder are external: the
    command carries the payload object, and the client is a parameter that either
    returns a response or throws. A \<open>TypeError\<close> carries a label that tells what
    threw, not the wording of the engine.
\<close>

subsection \<open>JavaScript values and the operations the source applies to them\<close>

datatype json =
    JNull
  | JBool bool
  | JNumber int
  | JString string
  | JArray "json list"
  | JObject "(string \<times> json) list"

datatype js_error = TypeError string | ClientError string

datatype 'a outcome = Returned 'a | Threw js_error

definition and_then :: "'a outcome \<Rightarrow> ('a \<Rightarrow> 'b outcome) \<Rightarrow> 'b outcome" where
  "and_then r f = (case r of Threw e \<Rightarrow> Threw e | Returned x \<Rightarrow> f x)"

text \<open>
  \<open>!v\<close> is \<open>\<not> truthy v\<close>, where \<open>None\<close> is \<open>undefined\<close>: the falsy values are
  \<open>undefined\<close>, \<open>null\<close>, \<open>false\<close>, \<open>0\<close> and the empty string.
\<close>

fun truthy :: "json option \<Rightarrow> bool" where
  "truthy None = False"
| "truthy (Some JNull) = False"
| "truthy (Some (JBool b)) = b"
| "truthy (Some (JNumber n)) = (n \<noteq> 0)"
| "truthy (Some (JString s)) = (s \<noteq> [])"
| "truthy (Some (JArray xs)) = True"
| "truthy (Some (JObject props)) = True"

fun decimal :: "nat \<Rightarrow> string" where
  "decimal n =
     (if n < 10 then [''0123456789'' ! n]
      else decimal (n div 10) @ [''0123456789'' ! (n mod 10)])"

declare decimal.simps [simp del]

definition number_string :: "int \<Rightarrow> string" where
  "number_string n = (if n < 0 then CHR ''-'' # decimal (nat (- n)) else decimal (nat n))"

fun join_strings :: "string outcome list \<Rightarrow> string outcome" where
  "join_strings [] = Returned []"
| "join_strings [r] = r"
| "join_strings (r # rs) =
     and_then r (\<lambda>s. and_then (join_strings rs) (\<lambda>t. Returned (s @ CHR '','' # t)))"

text \<open>
  The conversion of a value to a string: what a template literal does to an
  interpolated value and what a computed property access does to its key. An array
  joins the conversions of its elements, with \<open>null\<close> as the empty string. An object
  answers \<open>[object Object]\<close> through the \<open>toString\<close> of its prototype; a parsed
  object that has a property \<open>toString\<close> of its own hides that method behind a value
  that cannot be called, and the conversion throws.
\<close>

fun to_string :: "json \<Rightarrow> string outcome" where
  "to_string JNull = Returned ''null''"
| "to_string (JBool b) = Returned (if b then ''true'' else ''false'')"
| "to_string (JNumber n) = Returned (number_string n)"
| "to_string (JString s) = Returned s"
| "to_string (JArray xs) =
     join_strings (map (\<lambda>x. if x = JNull then Returned [] else to_string x) xs)"
| "to_string (JObject props) =
     (case map_of props ''toString'' of
        Some v \<Rightarrow> Threw (TypeError ''Cannot convert object to primitive value'')
      | None \<Rightarrow> Returned ''[object Object]'')"

definition to_key :: "json option \<Rightarrow> string outcome" where
  "to_key v = (case v of None \<Rightarrow> Returned ''undefined'' | Some x \<Rightarrow> to_string x)"

text \<open>
  \<open>v == w\<close> for a string \<open>w\<close> that is not the notation of a number, as
  \<open>'AWS::SQS::Queue'\<close>, \<open>'Arn'\<close> and \<open>'SendMessage'\<close> are: \<open>undefined\<close>, \<open>null\<close>,
  booleans and numbers never equal it, a string equals it when it is the same string,
  and an array or an object is converted to a string first.
\<close>

fun loose_eq_word :: "json option \<Rightarrow> string \<Rightarrow> bool outcome" where
  "loose_eq_word None w = Returned False"
| "loose_eq_word (Some JNull) w = Returned False"
| "loose_eq_word (Some (JBool b)) w = Returned False"
| "loose_eq_word (Some (JNumber n)) w = Returned False"
| "loose_eq_word (Some (JString s)) w = Returned (s = w)"
| "loose_eq_word (Some (JArray xs)) w =
     and_then (to_string (JArray xs)) (\<lambda>s. Returned (s = w))"
| "loose_eq_word (Some (JObject props)) w =
     and_then (to_string (JObject props)) (\<lambda>s. Returned (s = w))"

text \<open>
  \<open>n == 2\<close> for the \<open>length\<close> of a value. The lengths of strings and arrays are
  numbers. Only a parsed object with a property \<open>length\<close> of its own can offer
  anything else; there a string or an array that JavaScript would convert to the
  number 2 is read as different from 2.
\<close>

fun number_is_2 :: "json option \<Rightarrow> bool" where
  "number_is_2 (Some (JNumber n)) = (n = 2)"
| "number_is_2 v = False"

definition index_of_key :: "string \<Rightarrow> nat \<Rightarrow> nat option" where
  "index_of_key k n = find (\<lambda>i. decimal i = k) [0..<n]"

text \<open>
  \<open>v.hasOwnProperty(k)\<close>. On \<open>null\<close> the access to the method throws. On a parsed
  object the method is the one of the prototype unless the object has a property
  \<open>hasOwnProperty\<close> of its own, whose value cannot be called.
\<close>

fun js_hasOwnProperty :: "json \<Rightarrow> string \<Rightarrow> bool outcome" where
  "js_hasOwnProperty JNull k = Threw (TypeError ''read of a property of null'')"
| "js_hasOwnProperty (JBool b) k = Returned False"
| "js_hasOwnProperty (JNumber n) k = Returned False"
| "js_hasOwnProperty (JString s) k =
     Returned (if k = ''length'' then True
               else (case index_of_key k (length s) of Some i \<Rightarrow> True | None \<Rightarrow> False))"
| "js_hasOwnProperty (JArray xs) k =
     Returned (if k = ''length'' then True
               else (case index_of_key k (length xs) of Some i \<Rightarrow> True | None \<Rightarrow> False))"
| "js_hasOwnProperty (JObject props) k =
     (case map_of props ''hasOwnProperty'' of
        Some v \<Rightarrow> Threw (TypeError ''hasOwnProperty is not a function'')
      | None \<Rightarrow> Returned (map_of props k \<noteq> None))"

text \<open>
  \<open>v.k\<close> and \<open>v[k]\<close> for the keys the source reads from configuration values:
  \<open>Type\<close>, \<open>Properties\<close>, \<open>QueueName\<close>, \<open>sqs\<close>, \<open>arn\<close>, \<open>Fn::GetAtt\<close>,
  \<open>length\<close>, \<open>0\<close> and \<open>1\<close>. None of them is a property of a prototype, so the
  result is the own property or \<open>undefined\<close>; reading from \<open>null\<close> throws.
\<close>

fun js_get :: "json \<Rightarrow> string \<Rightarrow> json option outcome" where
  "js_get JNull k = Threw (TypeError ''read of a property of null'')"
| "js_get (JBool b) k = Returned None"
| "js_get (JNumber n) k = Returned None"
| "js_get (JString s) k =
     Returned (if k = ''length'' then Some (JNumber (int (length s)))
               else (case index_of_key k (length s) of
                       Some i \<Rightarrow> Some (JString [s ! i])
                     | None \<Rightarrow> None))"
| "js_get (JArray xs) k =
     Returned (if k = ''length'' then Some (JNumber (int (length xs)))
               else (case index_of_key k (length xs) of
                       Some i \<Rightarrow> Some (xs ! i)
                     | None \<Rightarrow> None))"
| "js_get (JObject props) k = Returned (map_of props k)"

text \<open>\<open>v.hasOwnProperty(k)\<close> followed, when it holds, by the read of \<open>v[k]\<close>.\<close>

definition js_own :: "json \<Rightarrow> string \<Rightarrow> json option outcome" where
  "js_own v k =
     and_then (js_hasOwnProperty v k) (\<lambda>has. if has then js_get v k else Returned None)"

text \<open>
  \<open>s.split(sep)\<close> for a one-character separator: the segments between the
  separators, \<open>['']\<close> for the empty string. The result is never empty, so
  \<open>.at(-1)\<close> of it is its last element.
\<close>

fun js_split :: "char \<Rightarrow> string \<Rightarrow> string list" where
  "js_split sep [] = [[]]"
| "js_split sep (c # cs) =
     (if c = sep then [] # js_split sep cs
      else (case js_split sep cs of
              [] \<Rightarrow> [[c]]
            | seg # segs \<Rightarrow> (c # seg) # segs))"

subsection \<open>Configuration input\<close>

text \<open>
  \<open>service.resources?.Resources\<close> and \<open>service.functions\<close> are the entries of two
  objects; the resources may be absent. A resource is any value. A function
  definition has an optional \<open>name\<close>, a string as its declared type says, and
  whatever \<open>events\<close> holds, \<open>None\<close> when the property is absent.
\<close>

record function_definition =
  name :: "string option"
  events :: "json option"

record service =
  resources :: "(string \<times> json) list option"
  service_functions :: "(string \<times> function_definition) list"

subsection \<open>Invocation envelope, client and responses\<close>

record sqs_record =
  messageId :: string
  receiptHandle :: string
  body :: json
  attributes :: "(string \<times> string) list"
  messageAttributes :: "(string \<times> string) list"
  md5OfBody :: string
  eventSource :: string
  eventSourceARN :: string
  awsRegion :: string

record sqs_payload =
  Records :: "sqs_record list"

record invoke_command =
  FunctionName :: "string option"
  Payload :: sqs_payload

record invoke_response =
  StatusCode :: "int option"

type_synonym lambda_client = "invoke_command \<Rightarrow> invoke_response outcome"

record http_response =
  status :: nat
  contentType :: "string option"
  sent :: string

subsection \<open>Plugin state and log\<close>

datatype level = Notice | Warning | Error

text \<open>
  One constructor for each log template of \<open>start\<close>, of the handler of \<open>POST /\<close>
  and of \<open>onMessage\<close>, in source order. The notice of the \<open>listen\<close> callback is
  left out: it depends on the server only.
\<close>

datatype message =
    StartingOfflineSQSInvoke
  | QueueMissingQueueName string
  | MultipleQueues string
  | UnknownResource string
  | ResourceMissingQueueName string
  | UnknownArnFormat json
  | UnknownQueueForFunction string string
  | AlreadyHasHandler string string
  | QueuesAvailable
  | QueueLine string "string option"
  | RequestWithoutAction
  | UnsupportedAction string
  | MissingQueueURL
  | MissingMessageBody
  | MissingQueueNameInUrl string
  | UnknownQueueName string
  | InvokingFunction "string option" string
  | ErrorWhileInvokingLambda invoke_response

text \<open>
  \<open>queueHandlers\<close> starts as \<open>{}\<close>, an object whose prototype is
  \<open>Object.prototype\<close>. \<open>own\<close> lists its own properties, \<open>None\<close> as a value being
  \<open>null\<close> (declared, no handler yet). \<open>protoNull\<close> tells that its prototype has
  been replaced by \<open>null\<close>, which is what the assignment
  \<open>this.queueHandlers['__proto__'] = null\<close> does.
\<close>

record handlers =
  own :: "(string \<times> string option) list"
  protoNull :: bool

text \<open>\<open>invoked\<close> records the commands handed to the Lambda client, oldest first.\<close>

record plugin =
  queueHandlers :: handlers
  logged :: "(level \<times> message) list"
  invoked :: "invoke_command list"

definition new_plugin :: plugin where
  "new_plugin =
     \<lparr>queueHandlers = \<lparr>own = [], protoNull = False\<rparr>, logged = [], invoked = []\<rparr>"

definition log_notice :: "message \<Rightarrow> plugin \<Rightarrow> plugin" where
  "log_notice m st = st\<lparr>logged := logged st @ [(Notice, m)]\<rparr>"

definition log_warning :: "message \<Rightarrow> plugin \<Rightarrow> plugin" where
  "log_warning m st = st\<lparr>logged := logged st @ [(Warning, m)]\<rparr>"

definition log_error :: "message \<Rightarrow> plugin \<Rightarrow> plugin" where
  "log_error m st = st\<lparr>logged := logged st @ [(Error, m)]\<rparr>"

text \<open>
  \<open>this.queueHandlers.hasOwnProperty(queueName)\<close>. The method is looked up on the
  object itself. It can be called as long as the object has its prototype and no
  property \<open>hasOwnProperty\<close> of its own; such a property holds \<open>null\<close> or a handler
  name, and calling it throws, as does calling the \<open>undefined\<close> that an object
  without prototype answers. When the method can be called, the argument is converted
  to a property key, and the answer is whether that key is an own property; the
  result here is the key together with the entry found under it, \<open>None\<close> when the
  key is not an own property.
\<close>

definition callable :: "handlers \<Rightarrow> bool" where
  "callable h =
     (if protoNull h then False
      else (case map_of (own h) ''hasOwnProperty'' of Some entry \<Rightarrow> False | None \<Rightarrow> True))"

definition qh_hasOwnProperty ::
  "handlers \<Rightarrow> json \<Rightarrow> (string \<times> string option option) outcome" where
  "qh_hasOwnProperty h queueName =
     (if \<not> callable h then Threw (TypeError ''this.queueHandlers.hasOwnProperty is not a function'')
      else and_then (to_string queueName) (\<lambda>k. Returned (k, map_of (own h) k)))"

text \<open>
  \<open>this.queueHandlers[k] = v\<close>. For the key \<open>__proto__\<close> of an object that still
  has its prototype and no own property of that name, the assignment runs the setter
  of the prototype: \<open>null\<close> removes the prototype, a string is ignored, and no own
  property appears. Every other assignment writes an own property.
\<close>

definition runs_proto_setter :: "handlers \<Rightarrow> string \<Rightarrow> bool" where
  "runs_proto_setter h k =
     (if k = ''__proto__''
      then (if protoNull h then False
            else (case map_of (own h) k of Some entry \<Rightarrow> False | None \<Rightarrow> True))
      else False)"

definition qh_set :: "handlers \<Rightarrow> string \<Rightarrow> string option \<Rightarrow> handlers" where
  "qh_set h k v =
     (if runs_proto_setter h k
      then (case v of None \<Rightarrow> h\<lparr>protoNull := True\<rparr> | Some handler \<Rightarrow> h)
      else h\<lparr>own := AList.update k v (own h)\<rparr>)"

subsection \<open>\<open>start\<close>: the resource loop\<close>

text \<open>
  \<open>resource.Properties?.hasOwnProperty('QueueName')\<close> and the read of
  \<open>resource.Properties.QueueName\<close> that follows it: the value of the property, or
  \<open>None\<close> when the test fails. \<open>?.\<close> stops at \<open>undefined\<close> and at \<open>null\<close>.
\<close>

definition queueNameProperty :: "json \<Rightarrow> json option outcome" where
  "queueNameProperty resource =
     and_then (js_get resource ''Properties'') (\<lambda>properties.
       case properties of
         None \<Rightarrow> Returned None
       | Some props \<Rightarrow> if props = JNull then Returned None else js_own props ''QueueName'')"

text \<open>\<open>resource.Type == 'AWS::SQS::Queue'\<close>, the negation of the test of the loop.\<close>

definition is_queue :: "json \<Rightarrow> bool outcome" where
  "is_queue resource =
     and_then (js_get resource ''Type'') (\<lambda>t. loose_eq_word t ''AWS::SQS::Queue'')"

text \<open>One pass of the loop over the entries of \<open>resources\<close>.\<close>

definition start_resource :: "string \<times> json \<Rightarrow> plugin \<Rightarrow> unit outcome \<times> plugin" where
  "start_resource entry st =
     (case entry of (key, resource) \<Rightarrow>
        (case is_queue resource of
           Threw e \<Rightarrow> (Threw e, st)
         | Returned isQueue \<Rightarrow>
             if \<not> isQueue then (Returned (), st)
             else (case queueNameProperty resource of
                Threw e \<Rightarrow> (Threw e, st)
              | Returned None \<Rightarrow> (Returned (), log_error (QueueMissingQueueName key) st)
              | Returned (Some queueName) \<Rightarrow>
                  (case qh_hasOwnProperty (queueHandlers st) queueName of
                     Threw e \<Rightarrow> (Threw e, st)
                   | Returned (k, Some entry) \<Rightarrow>
                       (Returned (), log_warning (MultipleQueues k) st)
                   | Returned (k, None) \<Rightarrow>
                       (Returned (),
                        st\<lparr>queueHandlers := qh_set (queueHandlers st) k None\<rparr>)))))"

fun start_resources :: "(string \<times> json) list \<Rightarrow> plugin \<Rightarrow> unit outcome \<times> plugin" where
  "start_resources [] st = (Returned (), st)"
| "start_resources (entry # rest) st =
     (case start_resource entry st of
        (Threw e, st') \<Rightarrow> (Threw e, st')
      | (Returned u, st') \<Rightarrow> start_resources rest st')"

subsection \<open>\<open>start\<close>: the function loop\<close>

text \<open>
  \<open>resources[resourceName]\<close>: an own property of \<open>resources\<close>, or else one of the
  properties every object inherits from \<open>Object.prototype\<close> (functions, and for
  \<open>__proto__\<close> the prototype itself: all truthy, none with \<open>Properties\<close>), or else
  \<open>undefined\<close>.
\<close>

definition object_prototype_keys :: "string list" where
  "object_prototype_keys =
     [''constructor'', ''__defineGetter__'', ''__defineSetter__'', ''hasOwnProperty'',
      ''__lookupGetter__'', ''__lookupSetter__'', ''isPrototypeOf'',
      ''propertyIsEnumerable'', ''toString'', ''valueOf'', ''__proto__'',
      ''toLocaleString'']"

datatype looked_up = Own json | Inherited | Undefined

definition lookup_resource :: "(string \<times> json) list \<Rightarrow> string \<Rightarrow> looked_up" where
  "lookup_resource rs k =
     (case map_of rs k of
        Some r \<Rightarrow> Own r
      | None \<Rightarrow> if k \<in> set object_prototype_keys then Inherited else Undefined)"

text \<open>
  The chain of tests on \<open>sqs.arn\<close>, for the value of \<open>event.sqs\<close>: the queue name of
  the binding, or the log line of the branch that gives up on it, or the error of
  the access that throws.
\<close>

definition resolveQueueName ::
  "(string \<times> json) list \<Rightarrow> json \<Rightarrow> ((level \<times> message) + json) outcome" where
  "resolveQueueName rs trigger =
     and_then (js_get trigger ''arn'') (\<lambda>arn.
       case arn of
         None \<Rightarrow> Threw (TypeError ''read of a property of undefined'')
       | Some a \<Rightarrow>
           (case a of
              JString s \<Rightarrow> Returned (Inr (JString (last (js_split CHR '':'' s))))
            | _ \<Rightarrow>
                and_then (js_own a ''Fn::GetAtt'') (\<lambda>getAtt.
                  case getAtt of
                    None \<Rightarrow> Returned (Inl (Error, UnknownArnFormat a))
                  | Some g \<Rightarrow>
                      and_then (js_get g ''length'') (\<lambda>n.
                        if \<not> number_is_2 n then Returned (Inl (Error, UnknownArnFormat a))
                        else
                          and_then (js_get g ''1'') (\<lambda>second.
                          and_then (loose_eq_word second ''Arn'') (\<lambda>isArn.
                            if \<not> isArn then Returned (Inl (Error, UnknownArnFormat a))
                            else
                              and_then (js_get g ''0'') (\<lambda>first.
                              and_then (to_key first) (\<lambda>resourceName.
                                case lookup_resource rs resourceName of
                                  Undefined \<Rightarrow>
                                    Returned (Inl (Error, UnknownResource resourceName))
                                | Inherited \<Rightarrow>
                                    Returned (Inl (Error, ResourceMissingQueueName resourceName))
                                | Own resource \<Rightarrow>
                                    if \<not> truthy (Some resource)
                                    then Returned (Inl (Error, UnknownResource resourceName))
                                    else
                                      and_then (queueNameProperty resource) (\<lambda>property.
                                        case property of
                                          None \<Rightarrow>
                                            Returned
                                              (Inl (Error, ResourceMissingQueueName resourceName))
                                        | Some queueName \<Rightarrow> Returned (Inr queueName))))))))))"

text \<open>
  One pass of the inner loop. \<open>key\<close> is the key of the function in
  \<open>service.functions\<close>, \<open>fname\<close> is \<open>definition.name\<close>.
\<close>

definition start_event ::
  "(string \<times> json) list \<Rightarrow> string \<Rightarrow> string \<Rightarrow> json \<Rightarrow> plugin \<Rightarrow> unit outcome \<times> plugin" where
  "start_event rs key fname ev st =
     (case js_own ev ''sqs'' of
        Threw e \<Rightarrow> (Threw e, st)
      | Returned None \<Rightarrow> (Returned (), st)
      | Returned (Some trigger) \<Rightarrow>
          (case resolveQueueName rs trigger of
             Threw e \<Rightarrow> (Threw e, st)
           | Returned (Inl line) \<Rightarrow> (Returned (), st\<lparr>logged := logged st @ [line]\<rparr>)
           | Returned (Inr queueName) \<Rightarrow>
               (case qh_hasOwnProperty (queueHandlers st) queueName of
                  Threw e \<Rightarrow> (Threw e, st)
                | Returned (k, None) \<Rightarrow>
                    (Returned (), log_warning (UnknownQueueForFunction k key) st)
                | Returned (k, Some (Some handler)) \<Rightarrow>
                    (Returned (), log_warning (AlreadyHasHandler k handler) st)
                | Returned (k, Some None) \<Rightarrow>
                    (Returned (),
                     st\<lparr>queueHandlers := qh_set (queueHandlers st) k (Some fname)\<rparr>))))"

fun start_events ::
  "(string \<times> json) list \<Rightarrow> string \<Rightarrow> string \<Rightarrow> json list \<Rightarrow> plugin
     \<Rightarrow> unit outcome \<times> plugin" where
  "start_events rs key fname [] st = (Returned (), st)"
| "start_events rs key fname (ev # rest) st =
     (case start_event rs key fname ev st of
        (Threw e, st') \<Rightarrow> (Threw e, st')
      | (Returned u, st') \<Rightarrow> start_events rs key fname rest st')"

text \<open>
  \<open>for (let event of definition.events)\<close>: an array yields its elements and a
  string its characters; anything else, \<open>undefined\<close> included, is not iterable and
  the loop throws before its first pass.
\<close>

fun iterate :: "json option \<Rightarrow> json list outcome" where
  "iterate (Some (JArray xs)) = Returned xs"
| "iterate (Some (JString s)) = Returned (map (\<lambda>c. JString [c]) s)"
| "iterate v = Threw (TypeError ''definition.events is not iterable'')"

fun start_functions ::
  "(string \<times> json) list \<Rightarrow> (string \<times> function_definition) list \<Rightarrow> plugin
     \<Rightarrow> unit outcome \<times> plugin" where
  "start_functions rs [] st = (Returned (), st)"
| "start_functions rs ((key, d) # rest) st =
     (case name d of
        None \<Rightarrow> start_functions rs rest st
      | Some fname \<Rightarrow>
          (case iterate (events d) of
             Threw e \<Rightarrow> (Threw e, st)
           | Returned evs \<Rightarrow>
               (case start_events rs key fname evs st of
                  (Threw e, st') \<Rightarrow> (Threw e, st')
                | (Returned u, st') \<Rightarrow> start_functions rs rest st')))"

definition start_summary :: "plugin \<Rightarrow> plugin" where
  "start_summary st =
     st\<lparr>logged := logged st @ (Notice, QueuesAvailable) #
           map (\<lambda>(queue, handler). (Notice, QueueLine queue handler))
             (own (queueHandlers st))\<rparr>"

text \<open>
  \<open>start\<close> itself. \<open>startHttp\<close> is called right after the first notice; it installs
  \<open>post_root\<close> below and starts listening, and changes neither the handlers nor,
  before \<open>start\<close> returns, the log. Nothing in \<open>start\<close> catches an error: the
  first one ends the scan, with the state reached so far.
\<close>

definition start :: "service \<Rightarrow> plugin \<Rightarrow> unit outcome \<times> plugin" where
  "start svc st0 =
     (let st1 = log_notice StartingOfflineSQSInvoke st0 in
      case resources svc of
        None \<Rightarrow> (Returned (), st1)
      | Some rs \<Rightarrow>
          (case start_resources rs st1 of
             (Threw e, st2) \<Rightarrow> (Threw e, st2)
           | (Returned u, st2) \<Rightarrow>
               (case start_functions rs (service_functions svc) st2 of
                  (Threw e, st3) \<Rightarrow> (Threw e, st3)
                | (Returned u, st3) \<Rightarrow> (Returned (), start_summary st3))))"

subsection \<open>Configurations of the declared shapes\<close>

text \<open>
  The shapes the declared types of the configuration give its values, as tests on
  parsed values: a resource is an object whose \<open>Type\<close>, when present, is a string
  and whose \<open>Properties\<close>, when present, is \<open>null\<close> or an object whose
  \<open>QueueName\<close>, when present, is a string; a named function has an array of events,
  each an object whose
  \<open>sqs\<close>, when present, is an object with an \<open>arn\<close> that is a string or an
  object whose \<open>Fn::GetAtt\<close>, when present, is an array of strings. Two more
  conditions keep the method \<open>hasOwnProperty\<close> reachable on every object on which
  \<open>start\<close> calls it: none of these objects has a property \<open>hasOwnProperty\<close> of its
  own, and no \<open>QueueName\<close> is \<open>hasOwnProperty\<close> or \<open>__proto__\<close>.
\<close>

fun shaped_type :: "json option \<Rightarrow> bool" where
  "shaped_type None = True"
| "shaped_type (Some (JString t)) = True"
| "shaped_type (Some v) = False"

fun shaped_queue_name :: "json option \<Rightarrow> bool" where
  "shaped_queue_name None = True"
| "shaped_queue_name (Some (JString n)) = (n \<noteq> ''hasOwnProperty'' \<and> n \<noteq> ''__proto__'')"
| "shaped_queue_name (Some v) = False"

fun shaped_properties :: "json option \<Rightarrow> bool" where
  "shaped_properties None = True"
| "shaped_properties (Some JNull) = True"
| "shaped_properties (Some (JObject props)) =
     (map_of props ''hasOwnProperty'' = None \<and> shaped_queue_name (map_of props ''QueueName''))"
| "shaped_properties (Some v) = False"

fun shaped_resource :: "json \<Rightarrow> bool" where
  "shaped_resource (JObject props) =
     (shaped_type (map_of props ''Type'') \<and> shaped_properties (map_of props ''Properties''))"
| "shaped_resource v = False"

fun is_text :: "json \<Rightarrow> bool" where
  "is_text (JString s) = True"
| "is_text v = False"

fun shaped_getAtt :: "json option \<Rightarrow> bool" where
  "shaped_getAtt None = True"
| "shaped_getAtt (Some (JArray parts)) = list_all is_text parts"
| "shaped_getAtt (Some v) = False"

fun shaped_arn :: "json option \<Rightarrow> bool" where
  "shaped_arn (Some (JString s)) = True"
| "shaped_arn (Some (JObject props)) =
     (map_of props ''hasOwnProperty'' = None \<and> shaped_getAtt (map_of props ''Fn::GetAtt''))"
| "shaped_arn v = False"

fun shaped_trigger :: "json option \<Rightarrow> bool" where
  "shaped_trigger None = True"
| "shaped_trigger (Some (JObject props)) = shaped_arn (map_of props ''arn'')"
| "shaped_trigger (Some v) = False"

fun shaped_event :: "json \<Rightarrow> bool" where
  "shaped_event (JObject props) =
     (map_of props ''hasOwnProperty'' = None \<and> shaped_trigger (map_of props ''sqs''))"
| "shaped_event v = False"

fun shaped_events :: "json option \<Rightarrow> bool" where
  "shaped_events (Some (JArray evs)) = list_all shaped_event evs"
| "shaped_events v = False"

definition shaped_function :: "string \<times> function_definition \<Rightarrow> bool" where
  "shaped_function entry =
     (case name (snd entry) of None \<Rightarrow> True | Some fname \<Rightarrow> shaped_events (events (snd entry)))"

definition shaped_service :: "service \<Rightarrow> bool" where
  "shaped_service svc =
     (case resources svc of
        None \<Rightarrow> True
      | Some rs \<Rightarrow>
          list_all (\<lambda>entry. shaped_resource (snd entry)) rs
          \<and> list_all shaped_function (service_functions svc))"

subsection \<open>\<open>onMessage\<close>\<close>

definition envelope :: "json \<Rightarrow> string \<Rightarrow> sqs_payload" where
  "envelope messageBody queueName =
     \<lparr>Records = [
        \<lparr>messageId = ''00000000-0000-0000-0000-000000000000'',
         receiptHandle = '''',
         body = messageBody,
         attributes = [],
         messageAttributes = [],
         md5OfBody = '''',
         eventSource = ''aws:sqs'',
         eventSourceARN = ''arn:aws:sqs:localhost:000000000000:'' @ queueName,
         awsRegion = ''localhost''\<rparr>]\<rparr>"

text \<open>
  The form is the parsed body of the request: a field is absent or holds a string,
  an array or an object, as the extended parser produces them. \<open>queueUrl.split\<close>
  exists for strings only. Neither \<open>await this.lambdaClient.send(command)\<close> nor any
  other step has a handler around it: when a step throws, \<open>onMessage\<close> rejects with
  the same error.
\<close>

definition onMessage ::
  "lambda_client \<Rightarrow> (string \<rightharpoonup> json) \<Rightarrow> plugin \<Rightarrow> bool outcome \<times> plugin" where
  "onMessage client form st =
     (if \<not> truthy (form ''QueueUrl'')
      then (Returned False, log_warning MissingQueueURL st)
      else if \<not> truthy (form ''MessageBody'')
      then (Returned False, log_warning MissingMessageBody st)
      else (case (form ''QueueUrl'', form ''MessageBody'') of
         (Some (JString queueUrl), Some messageBody) \<Rightarrow>
           (let queueName = last (js_split CHR ''/'' queueUrl) in
            if queueName = []
            then (Returned False, log_warning (MissingQueueNameInUrl queueUrl) st)
            else (case qh_hasOwnProperty (queueHandlers st) (JString queueName) of
               Threw e \<Rightarrow> (Threw e, st)
             | Returned (k, None) \<Rightarrow>
                 (Returned False, log_warning (UnknownQueueName queueName) st)
             | Returned (k, Some handler) \<Rightarrow>
                 (let st1 = log_notice (InvokingFunction handler queueName) st;
                      command = \<lparr>FunctionName = handler,
                                 Payload = envelope messageBody queueName\<rparr>;
                      st2 = st1\<lparr>invoked := invoked st1 @ [command]\<rparr>
                  in case client command of
                       Threw e \<Rightarrow> (Threw e, st2)
                     | Returned response \<Rightarrow>
                         if StatusCode response \<noteq> Some 200
                         then (Returned False,
                               log_error (ErrorWhileInvokingLambda response) st2)
                         else (Returned True, st2))))
       | _ \<Rightarrow> (Threw (TypeError ''queueUrl.split is not a function''), st)))"

subsection \<open>\<open>startHttp\<close>: the handler of \<open>POST /\<close>\<close>

text \<open>
  The request body is \<open>None\<close> when no form was parsed. The handler either sends one
  response or, when a step throws, ends without sending any: \<open>Threw\<close>.
  \<open>contentType\<close> is the header the handler sets itself; \<open>send_400 reason\<close> is
  \<open>response.status(400).send(reason)\<close>, with the empty text for \<open>send()\<close>.
\<close>

definition send_400 :: "string \<Rightarrow> http_response" where
  "send_400 reason = \<lparr>status = 400, contentType = None, sent = reason\<rparr>"

definition post_root ::
  "lambda_client \<Rightarrow> (string \<rightharpoonup> json) option \<Rightarrow> plugin \<Rightarrow> http_response outcome \<times> plugin" where
  "post_root client reqBody st =
     (case reqBody of
        None \<Rightarrow>
          (Returned (send_400 ''Missing Action query parameter''),
           log_warning RequestWithoutAction st)
      | Some form \<Rightarrow>
          if \<not> truthy (form ''Action'')
          then (Returned (send_400 ''Missing Action query parameter''),
                log_warning RequestWithoutAction st)
          else (case loose_eq_word (form ''Action'') ''SendMessage'' of
             Threw e \<Rightarrow> (Threw e, st)
           | Returned isSend \<Rightarrow>
               if \<not> isSend
               then (case to_key (form ''Action'') of
                       Threw e \<Rightarrow> (Threw e, st)
                     | Returned action \<Rightarrow>
                         (Returned (send_400 ''Only SendMessage actions are supported''),
                          log_warning (UnsupportedAction action) st))
               else (case onMessage client form st of
                       (Threw e, st') \<Rightarrow> (Threw e, st')
                     | (Returned success, st') \<Rightarrow>
                         if \<not> success
                         then (Returned (send_400 []), st')
                         else (Returned \<lparr>status = 200, contentType = Some ''text/xml'',
                                  sent = ''<SendMessageResponse></SendMessageResponse>''\<rparr>,
                               st'))))"

subsection \<open>Sample inputs\<close>

text \<open>
  The inputs at which the theorems below are evaluated: a queue named \<open>orders\<close>,
  declared by the resource \<open>OrdersQueue\<close>, a function bound to it, \<open>SendMessage\<close>
  forms addressed to it and to a queue \<open>payments\<close> that nobody declared, three
  clients, and configurations with a queue whose name is \<open>hasOwnProperty\<close>, with a
  function that has no \<open>events\<close>, and with triggers written as a bare string,
  with \<open>arn: null\<close> and with \<open>Fn::GetAtt: null\<close>.
\<close>

definition queue_named :: "string \<Rightarrow> json" where
  "queue_named n =
     JObject [(''Type'', JString ''AWS::SQS::Queue''),
              (''Properties'', JObject [(''QueueName'', JString n)])]"

definition orders_arn :: json where
  "orders_arn = JString ''arn:aws:sqs:localhost:000000000000:orders''"

definition bound_to :: "json \<Rightarrow> json" where
  "bound_to a = JObject [(''sqs'', JObject [(''arn'', a)])]"

definition worker :: function_definition where
  "worker = \<lparr>name = Some ''svc-dev-worker'', events = Some (JArray [bound_to orders_arn])\<rparr>"

definition orders_service :: service where
  "orders_service =
     \<lparr>resources = Some [(''OrdersQueue'', queue_named ''orders'')],
      service_functions = [(''worker'', worker)]\<rparr>"

definition ready_plugin :: plugin where
  "ready_plugin =
     \<lparr>queueHandlers = \<lparr>own = [(''orders'', Some ''svc-dev-worker'')], protoNull = False\<rparr>,
      logged = [], invoked = []\<rparr>"

definition orders_form :: "string \<rightharpoonup> json" where
  "orders_form =
     [''Action'' \<mapsto> JString ''SendMessage'',
      ''QueueUrl'' \<mapsto> JString ''http://localhost:3003/queue/orders'',
      ''MessageBody'' \<mapsto> JString ''hello'']"

definition orders_command :: invoke_command where
  "orders_command =
     \<lparr>FunctionName = Some ''svc-dev-worker'',
      Payload = envelope (JString ''hello'') ''orders''\<rparr>"

definition client_ok :: lambda_client where
  "client_ok command = Returned \<lparr>StatusCode = Some 200\<rparr>"

definition client_failed :: lambda_client where
  "client_failed command = Returned \<lparr>StatusCode = Some 500\<rparr>"

definition client_unreachable :: lambda_client where
  "client_unreachable command = Threw (ClientError ''connect ECONNREFUSED 127.0.0.1:3002'')"

definition payments_form :: "string \<rightharpoonup> json" where
  "payments_form =
     [''Action'' \<mapsto> JString ''SendMessage'',
      ''QueueUrl'' \<mapsto> JString ''http://localhost:3003/queue/payments'',
      ''MessageBody'' \<mapsto> JString ''hello'']"

definition orders_then_shadow_service :: service where
  "orders_then_shadow_service =
     \<lparr>resources = Some [(''OrdersQueue'', queue_named ''orders''),
                         (''Shadow'', queue_named ''hasOwnProperty'')],
      service_functions = [(''worker'', worker)]\<rparr>"

definition shadow_twice_service :: service where
  "shadow_twice_service =
     \<lparr>resources = Some [(''First'', queue_named ''hasOwnProperty''),
                         (''Second'', queue_named ''hasOwnProperty'')],
      service_functions = []\<rparr>"

definition shadow_only_service :: service where
  "shadow_only_service =
     \<lparr>resources = Some [(''Shadow'', queue_named ''hasOwnProperty'')],
      service_functions = []\<rparr>"

definition events_missing_service :: service where
  "events_missing_service =
     \<lparr>resources = Some [(''OrdersQueue'', queue_named ''orders'')],
      service_functions =
        [(''first'', \<lparr>name = Some ''svc-dev-first'', events = None\<rparr>),
         (''worker'', worker)]\<rparr>"

definition shorthand_service :: service where
  "shorthand_service =
     \<lparr>resources = Some [(''OrdersQueue'', queue_named ''orders'')],
      service_functions =
        [(''first'', \<lparr>name = Some ''svc-dev-first'',
                       events = Some (JArray [JObject [(''sqs'', orders_arn)]])\<rparr>),
         (''worker'', worker)]\<rparr>"

definition null_getatt_service :: service where
  "null_getatt_service =
     \<lparr>resources = Some [(''OrdersQueue'', queue_named ''orders'')],
      service_functions =
        [(''first'', \<lparr>name = Some ''svc-dev-first'',
                       events = Some (JArray [bound_to (JObject [(''Fn::GetAtt'', JNull)])])\<rparr>),
         (''worker'', worker)]\<rparr>"

definition null_arn_service :: service where
  "null_arn_service =
     \<lparr>resources = Some [(''OrdersQueue'', queue_named ''orders'')],
      service_functions =
        [(''first'', \<lparr>name = Some ''svc-dev-first'',
                       events = Some (JArray [bound_to JNull])\<rparr>),
         (''worker'', worker)]\<rparr>"

definition getAtt :: "string \<Rightarrow> json" where
  "getAtt target = JObject [(''Fn::GetAtt'', JArray [JString target, JString ''Arn''])]"

definition broken_queue :: json where
  "broken_queue = JObject [(''Type'', JString ''AWS::SQS::Queue'')]"

definition ref_binding :: json where
  "ref_binding = bound_to (JObject [(''Ref'', JString ''OrdersQueue'')])"

definition mixed_service :: service where
  "mixed_service =
     \<lparr>resources = Some [(''OrdersQueue'', queue_named ''orders''),
                         (''Broken'', broken_queue),
                         (''Topic'', JObject [(''Type'', JString ''AWS::SNS::Topic'')])],
      service_functions =
        [(''draft'', \<lparr>name = None, events = None\<rparr>),
         (''idle'', \<lparr>name = Some ''svc-dev-idle'', events = Some (JArray [])\<rparr>),
         (''worker'',
          \<lparr>name = Some ''svc-dev-worker'',
           events = Some (JArray [JObject [(''http'', JString ''GET /'')],
                                  ref_binding,
                                  bound_to (getAtt ''Missing''),
                                  bound_to (getAtt ''Topic''),
                                  bound_to (getAtt ''OrdersQueue''),
                                  bound_to orders_arn])\<rparr>)]\<rparr>"

definition orders_twice_service :: service where
  "orders_twice_service =
     \<lparr>resources = Some [(''First'', queue_named ''orders''),
                         (''Second'', queue_named ''orders'')],
      service_functions = []\<rparr>"

section \<open>Properties of the primitives\<close>

lemmas log_defs = log_notice_def log_warning_def log_error_def

lemma js_split_not_Nil: "js_split sep s \<noteq> []"
  by (induction s) (auto split: list.splits)

lemma js_split_no_sep: "sep \<notin> set s \<Longrightarrow> js_split sep s = [s]"
  by (induction s) auto

lemma js_split_append: "js_split sep (p @ sep # q) = js_split sep p @ js_split sep q"
  by (induction p) (auto split: list.splits simp: js_split_not_Nil)

section \<open>When \<open>hasOwnProperty\<close> can be called\<close>

text \<open>
  The resource loop stores \<open>null\<close> only, and the function loop assigns a handler only
  after a test that needs the method. So in every state \<open>start\<close> reaches, the method
  can be called or no queue has a handler; a map that holds a handler has the method.
\<close>

lemma qh_hasOwnProperty_Returned:
  assumes "qh_hasOwnProperty h q = Returned (k, entry)"
  shows "callable h" and "entry = map_of (own h) k"
  using assms
  by (auto simp add: qh_hasOwnProperty_def and_then_def split: if_splits outcome.splits)

lemma qh_hasOwnProperty_string:
  "callable h \<Longrightarrow> qh_hasOwnProperty h (JString k) = Returned (k, map_of (own h) k)"
  by (simp add: qh_hasOwnProperty_def and_then_def)

lemma update_values:
  "e \<in> set (AList.update k v al) \<Longrightarrow> e = (k, v) \<or> e \<in> set al"
  by (induction al) (auto split: if_splits)

lemma qh_set_None_values:
  assumes "\<forall>e \<in> set (own h). snd e = None"
  shows "\<forall>e \<in> set (own (qh_set h k None)). snd e = None"
proof (cases "runs_proto_setter h k")
  case True
  with assms show ?thesis by (simp add: qh_set_def)
next
  case False
  show ?thesis
  proof
    fix e assume "e \<in> set (own (qh_set h k None))"
    with False have "e \<in> set (AList.update k None (own h))"
      by (simp add: qh_set_def)
    then have "e = (k, None) \<or> e \<in> set (own h)"
      by (rule update_values)
    with assms show "snd e = None" by auto
  qed
qed

lemma start_resource_values:
  assumes "\<forall>e \<in> set (own (queueHandlers st)). snd e = None"
  shows "\<forall>e \<in> set (own (queueHandlers (snd (start_resource entry st)))). snd e = None"
proof -
  obtain key resource where entry: "entry = (key, resource)" by (cases entry)
  have same: "queueHandlers (snd (start_resource entry st)) = queueHandlers st
      \<or> (\<exists>k. queueHandlers (snd (start_resource entry st)) = qh_set (queueHandlers st) k None)"
    unfolding entry start_resource_def
    by (auto simp add: log_defs split: outcome.splits option.splits prod.splits)
  then show ?thesis
  proof
    assume "queueHandlers (snd (start_resource entry st)) = queueHandlers st"
    with assms show ?thesis by simp
  next
    assume "\<exists>k. queueHandlers (snd (start_resource entry st)) = qh_set (queueHandlers st) k None"
    then obtain k where "queueHandlers (snd (start_resource entry st)) = qh_set (queueHandlers st) k None"
      by blast
    with qh_set_None_values [OF assms, of k] show ?thesis by simp
  qed
qed

lemma start_resources_values:
  "\<forall>e \<in> set (own (queueHandlers st)). snd e = None \<Longrightarrow>
   \<forall>e \<in> set (own (queueHandlers (snd (start_resources rs st)))). snd e = None"
proof (induction rs arbitrary: st)
  case Nil
  then show ?case by simp
next
  case (Cons entry rs)
  obtain out st' where step: "start_resource entry st = (out, st')"
    by (cases "start_resource entry st")
  have v: "\<forall>e \<in> set (own (queueHandlers st')). snd e = None"
    using start_resource_values [OF Cons.prems, of entry] step by simp
  show ?case
  proof (cases out)
    case (Threw e)
    with step v show ?thesis by simp
  next
    case (Returned u)
    with step Cons.IH [OF v] show ?thesis by simp
  qed
qed

lemma callable_iff:
  "callable h \<longleftrightarrow> \<not> protoNull h \<and> map_of (own h) ''hasOwnProperty'' = None"
  by (simp add: callable_def split: option.splits)

lemma qh_set_assign_callable:
  assumes "callable h" and "map_of (own h) k = Some None"
  shows "callable (qh_set h k (Some f))"
proof -
  from assms have k: "k \<noteq> ''hasOwnProperty''"
    by (auto simp add: callable_iff)
  from assms(2) have "\<not> runs_proto_setter h k"
    by (auto simp add: runs_proto_setter_def)
  then have "qh_set h k (Some f) = h\<lparr>own := AList.update k (Some f) (own h)\<rparr>"
    by (simp add: qh_set_def)
  with assms(1) k show ?thesis
    by (simp add: callable_iff AList.update_conv')
qed

lemma start_event_change:
  "queueHandlers (snd (start_event rs key fname ev st)) = queueHandlers st
   \<or> (callable (queueHandlers st)
       \<and> (\<exists>k. map_of (own (queueHandlers st)) k = Some None
             \<and> queueHandlers (snd (start_event rs key fname ev st))
                 = qh_set (queueHandlers st) k (Some fname)))"
proof (cases "\<exists>trigger queueName k. js_own ev ''sqs'' = Returned (Some trigger)
    \<and> resolveQueueName rs trigger = Returned (Inr queueName)
    \<and> qh_hasOwnProperty (queueHandlers st) queueName = Returned (k, Some None)")
  case True
  then obtain trigger queueName k where a: "js_own ev ''sqs'' = Returned (Some trigger)"
    "resolveQueueName rs trigger = Returned (Inr queueName)"
    "qh_hasOwnProperty (queueHandlers st) queueName = Returned (k, Some None)"
    by blast
  from a(3) have "callable (queueHandlers st)" "Some None = map_of (own (queueHandlers st)) k"
    by (rule qh_hasOwnProperty_Returned)+
  moreover from a have "queueHandlers (snd (start_event rs key fname ev st))
      = qh_set (queueHandlers st) k (Some fname)"
    by (simp add: start_event_def)
  ultimately show ?thesis by auto
next
  case False
  then have "queueHandlers (snd (start_event rs key fname ev st)) = queueHandlers st"
    by (auto simp add: start_event_def log_defs
          split: outcome.splits option.splits sum.splits prod.splits)
  then show ?thesis ..
qed

lemma start_event_inv:
  assumes "callable (queueHandlers st) \<or> (\<forall>e \<in> set (own (queueHandlers st)). snd e = None)"
  shows "callable (queueHandlers (snd (start_event rs key fname ev st)))
       \<or> (\<forall>e \<in> set (own (queueHandlers (snd (start_event rs key fname ev st)))). snd e = None)"
  using start_event_change [of rs key fname ev st]
proof
  assume "queueHandlers (snd (start_event rs key fname ev st)) = queueHandlers st"
  with assms show ?thesis by simp
next
  assume "callable (queueHandlers st)
       \<and> (\<exists>k. map_of (own (queueHandlers st)) k = Some None
             \<and> queueHandlers (snd (start_event rs key fname ev st))
                 = qh_set (queueHandlers st) k (Some fname))"
  then obtain k where "callable (queueHandlers st)"
    "map_of (own (queueHandlers st)) k = Some None"
    "queueHandlers (snd (start_event rs key fname ev st)) = qh_set (queueHandlers st) k (Some fname)"
    by blast
  then have "callable (queueHandlers (snd (start_event rs key fname ev st)))"
    by (simp add: qh_set_assign_callable)
  then show ?thesis ..
qed

lemma start_events_inv:
  "callable (queueHandlers st) \<or> (\<forall>e \<in> set (own (queueHandlers st)). snd e = None) \<Longrightarrow>
   callable (queueHandlers (snd (start_events rs key fname evs st)))
   \<or> (\<forall>e \<in> set (own (queueHandlers (snd (start_events rs key fname evs st)))). snd e = None)"
proof (induction evs arbitrary: st)
  case Nil
  then show ?case by simp
next
  case (Cons ev evs)
  obtain out st' where step: "start_event rs key fname ev st = (out, st')"
    by (cases "start_event rs key fname ev st")
  have inv: "callable (queueHandlers st') \<or> (\<forall>e \<in> set (own (queueHandlers st')). snd e = None)"
    using start_event_inv [OF Cons.prems, of rs key fname ev] step by simp
  show ?case
  proof (cases out)
    case (Threw e)
    with step inv show ?thesis by simp
  next
    case (Returned u)
    with step Cons.IH [OF inv] show ?thesis by simp
  qed
qed

lemma start_functions_inv:
  "callable (queueHandlers st) \<or> (\<forall>e \<in> set (own (queueHandlers st)). snd e = None) \<Longrightarrow>
   callable (queueHandlers (snd (start_functions rs fs st)))
   \<or> (\<forall>e \<in> set (own (queueHandlers (snd (start_functions rs fs st)))). snd e = None)"
proof (induction fs arbitrary: st)
  case Nil
  then show ?case by simp
next
  case (Cons f fs)
  obtain key d where f: "f = (key, d)" by (cases f)
  show ?case
  proof (cases "name d")
    case None
    with f Cons.IH [OF Cons.prems] show ?thesis by simp
  next
    case (Some fname)
    show ?thesis
    proof (cases "iterate (events d)")
      case (Threw e)
      with f Some Cons.prems show ?thesis by simp
    next
      case (Returned evs)
      obtain out st' where run: "start_events rs key fname evs st = (out, st')"
        by (cases "start_events rs key fname evs st")
      have inv: "callable (queueHandlers st') \<or> (\<forall>e \<in> set (own (queueHandlers st')). snd e = None)"
        using start_events_inv [OF Cons.prems, of rs key fname evs] run by simp
      show ?thesis
      proof (cases out)
        case (Threw e)
        with f Some Returned run inv show ?thesis by simp
      next
        case u: (Returned u)
        with f Some Returned run Cons.IH [OF inv] show ?thesis by simp
      qed
    qed
  qed
qed

lemma start_inv:
  "callable (queueHandlers (snd (start svc new_plugin)))
   \<or> (\<forall>e \<in> set (own (queueHandlers (snd (start svc new_plugin)))). snd e = None)"
proof (cases "resources svc")
  case None
  then show ?thesis by (simp add: start_def new_plugin_def log_defs)
next
  case (Some rs)
  let ?st1 = "log_notice StartingOfflineSQSInvoke new_plugin"
  obtain out2 st2 where r: "start_resources rs ?st1 = (out2, st2)"
    by (cases "start_resources rs ?st1")
  have "\<forall>e \<in> set (own (queueHandlers ?st1)). snd e = None"
    by (simp add: new_plugin_def log_defs)
  then have v2: "\<forall>e \<in> set (own (queueHandlers st2)). snd e = None"
    using start_resources_values [of ?st1 rs] r by simp
  show ?thesis
  proof (cases out2)
    case (Threw e)
    with Some r v2 show ?thesis by (simp add: start_def)
  next
    case (Returned u)
    obtain out3 st3 where f: "start_functions rs (service_functions svc) st2 = (out3, st3)"
      by (cases "start_functions rs (service_functions svc) st2")
    from v2 have "callable (queueHandlers st2) \<or> (\<forall>e \<in> set (own (queueHandlers st2)). snd e = None)"
      ..
    then have inv3: "callable (queueHandlers st3) \<or> (\<forall>e \<in> set (own (queueHandlers st3)). snd e = None)"
      using start_functions_inv [of st2 rs "service_functions svc"] f by simp
    show ?thesis
    proof (cases out3)
      case (Threw e)
      with Some r Returned f inv3 show ?thesis by (simp add: start_def)
    next
      case u: (Returned u')
      with Some r Returned f inv3 show ?thesis by (simp add: start_def start_summary_def)
    qed
  qed
qed

lemma assigned_handler_callable:
  assumes "queueHandlers st = queueHandlers (snd (start svc new_plugin))"
    and "map_of (own (queueHandlers st)) q = Some (Some handler)"
  shows "callable (queueHandlers st)"
proof -
  from assms(2) have "(q, Some handler) \<in> set (own (queueHandlers st))"
    by (rule map_of_SomeD)
  then have "\<not> (\<forall>e \<in> set (own (queueHandlers st)). snd e = None)"
    by force
  moreover have "callable (queueHandlers st)
      \<or> (\<forall>e \<in> set (own (queueHandlers st)). snd e = None)"
    unfolding assms(1) by (rule start_inv)
  ultimately show ?thesis by blast
qed

section \<open>The handlers are read-only after \<open>start\<close>\<close>

lemma onMessage_queueHandlers:
  "queueHandlers (snd (onMessage client form st)) = queueHandlers st"
  by (simp add: onMessage_def Let_def log_defs
        split: option.splits outcome.splits json.splits prod.splits)

lemma post_root_queueHandlers:
  "queueHandlers (snd (post_root client reqBody st)) = queueHandlers st"
proof -
  have frame: "queueHandlers (snd (onMessage client form st)) = queueHandlers st" for form
    by (rule onMessage_queueHandlers)
  show ?thesis
  proof (cases reqBody)
    case None
    then show ?thesis by (simp add: post_root_def log_defs)
  next
    case (Some form)
    obtain out st' where run: "onMessage client form st = (out, st')"
      by (cases "onMessage client form st")
    with frame [of form] have "queueHandlers st' = queueHandlers st"
      by simp
    with Some run show ?thesis
      by (simp add: post_root_def log_defs split: outcome.splits)
  qed
qed

lemma post_root_rejected:
  assumes "form ''Action'' = Some (JString ''SendMessage'')"
    and "onMessage client form st = (Returned False, st')"
  shows "post_root client (Some form) st = (Returned (send_400 []), st')"
  using assms by (simp add: post_root_def)

section \<open>\<open>start\<close> on configurations of the declared shapes\<close>

lemma shaped_type_loose_eq:
  "shaped_type t \<Longrightarrow> \<exists>b. loose_eq_word t w = Returned b"
  by (cases t rule: shaped_type.cases) auto

lemma shaped_queue_name_cases:
  assumes "shaped_queue_name v"
  shows "v = None \<or> (\<exists>n. v = Some (JString n) \<and> n \<noteq> ''hasOwnProperty'' \<and> n \<noteq> ''__proto__'')"
  using assms by (cases v rule: shaped_queue_name.cases) simp_all

lemma shaped_properties_queueName:
  assumes "shaped_properties p"
  shows "\<exists>v. (case p of None \<Rightarrow> Returned None
               | Some props \<Rightarrow> if props = JNull then Returned None else js_own props ''QueueName'')
            = Returned v \<and> shaped_queue_name v"
  using assms
  by (cases p rule: shaped_properties.cases) (auto simp add: js_own_def and_then_def)

lemma shaped_resource_queueNameProperty:
  assumes "shaped_resource r"
  shows "\<exists>v. queueNameProperty r = Returned v \<and> shaped_queue_name v"
proof -
  from assms obtain props where r: "r = JObject props"
    and p: "shaped_properties (map_of props ''Properties'')"
    by (cases r rule: shaped_resource.cases) simp_all
  from shaped_properties_queueName [OF p] show ?thesis
    by (simp add: queueNameProperty_def r and_then_def)
qed

lemma shaped_resource_type:
  assumes "shaped_resource r"
  shows "\<exists>b. is_queue r = Returned b"
proof -
  from assms obtain props where r: "r = JObject props"
    and t: "shaped_type (map_of props ''Type'')"
    by (cases r rule: shaped_resource.cases) simp_all
  from shaped_type_loose_eq [OF t, of "''AWS::SQS::Queue''"] show ?thesis
    by (simp add: is_queue_def r and_then_def)
qed

lemma callable_set_None:
  assumes "callable h" and "k \<noteq> ''hasOwnProperty''" and "k \<noteq> ''__proto__''"
  shows "callable (qh_set h k None)"
  using assms
  by (simp add: callable_iff qh_set_def runs_proto_setter_def AList.update_conv')

lemma start_resource_shaped:
  assumes "shaped_resource r" and "callable (queueHandlers st)"
  shows "\<exists>st'. start_resource (key, r) st = (Returned (), st') \<and> callable (queueHandlers st')"
proof -
  obtain b where b: "is_queue r = Returned b"
    using shaped_resource_type [OF assms(1)] by blast
  obtain v where v: "queueNameProperty r = Returned v" and sv: "shaped_queue_name v"
    using shaped_resource_queueNameProperty [OF assms(1)] by blast
  show ?thesis
  proof (cases b)
    case False
    with b assms(2) show ?thesis by (simp add: start_resource_def)
  next
    case True
    from shaped_queue_name_cases [OF sv] show ?thesis
    proof
      assume "v = None"
      with b v True assms(2) show ?thesis
        by (simp add: start_resource_def log_defs)
    next
      assume "\<exists>n. v = Some (JString n) \<and> n \<noteq> ''hasOwnProperty'' \<and> n \<noteq> ''__proto__''"
      then obtain n where n: "v = Some (JString n)" "n \<noteq> ''hasOwnProperty''" "n \<noteq> ''__proto__''"
        by blast
      have look: "qh_hasOwnProperty (queueHandlers st) (JString n)
          = Returned (n, map_of (own (queueHandlers st)) n)"
        using assms(2) by (rule qh_hasOwnProperty_string)
      show ?thesis
      proof (cases "map_of (own (queueHandlers st)) n")
        case None
        with b v True n(1) look callable_set_None [OF assms(2) n(2) n(3)] show ?thesis
          by (simp add: start_resource_def)
      next
        case (Some entry)
        with b v True n(1) look assms(2) show ?thesis
          by (simp add: start_resource_def log_defs)
      qed
    qed
  qed
qed

lemma start_resources_shaped:
  "list_all (\<lambda>entry. shaped_resource (snd entry)) rs \<Longrightarrow> callable (queueHandlers st) \<Longrightarrow>
   \<exists>st'. start_resources rs st = (Returned (), st') \<and> callable (queueHandlers st')"
proof (induction rs arbitrary: st)
  case Nil
  then show ?case by simp
next
  case (Cons entry rs)
  obtain key r where entry: "entry = (key, r)" by (cases entry)
  from Cons.prems(1) entry have r: "shaped_resource r"
    and rest: "list_all (\<lambda>entry. shaped_resource (snd entry)) rs"
    by simp_all
  obtain st1 where step: "start_resource (key, r) st = (Returned (), st1)"
    and c: "callable (queueHandlers st1)"
    using start_resource_shaped [OF r Cons.prems(2)] by blast
  from Cons.IH [OF rest c] step entry show ?case
    by simp
qed

lemma index_of_key_pair:
  "index_of_key ''0'' (Suc (Suc 0)) = Some 0" "index_of_key ''1'' (Suc (Suc 0)) = Some 1"
  by code_simp+

lemma lookup_resource_shaped:
  assumes "list_all (\<lambda>entry. shaped_resource (snd entry)) rs"
    and "lookup_resource rs k = Own r"
  shows "shaped_resource r"
proof -
  from assms(2) have "map_of rs k = Some r"
    by (simp add: lookup_resource_def split: option.splits if_splits)
  then have "(k, r) \<in> set rs"
    by (rule map_of_SomeD)
  with assms(1) show ?thesis
    by (auto simp add: list_all_iff)
qed

lemma shaped_resource_truthy: "shaped_resource r \<Longrightarrow> truthy (Some r)"
  by (cases r rule: shaped_resource.cases) simp_all

lemma resolve_target_shaped:
  assumes "list_all (\<lambda>entry. shaped_resource (snd entry)) rs"
  shows "(\<exists>line.
      (case lookup_resource rs k of
         Undefined \<Rightarrow> Returned (Inl (Error, UnknownResource k))
       | Inherited \<Rightarrow> Returned (Inl (Error, ResourceMissingQueueName k))
       | Own resource \<Rightarrow>
           if \<not> truthy (Some resource)
           then Returned (Inl (Error, UnknownResource k))
           else and_then (queueNameProperty resource) (\<lambda>property.
                  case property of
                    None \<Rightarrow> Returned (Inl (Error, ResourceMissingQueueName k))
                  | Some queueName \<Rightarrow> Returned (Inr queueName)))
      = Returned (Inl line))
   \<or> (\<exists>n.
      (case lookup_resource rs k of
         Undefined \<Rightarrow> Returned (Inl (Error, UnknownResource k))
       | Inherited \<Rightarrow> Returned (Inl (Error, ResourceMissingQueueName k))
       | Own resource \<Rightarrow>
           if \<not> truthy (Some resource)
           then Returned (Inl (Error, UnknownResource k))
           else and_then (queueNameProperty resource) (\<lambda>property.
                  case property of
                    None \<Rightarrow> Returned (Inl (Error, ResourceMissingQueueName k))
                  | Some queueName \<Rightarrow> Returned (Inr queueName)))
      = Returned (Inr (JString n)))"
proof (cases "lookup_resource rs k")
  case (Own r)
  from lookup_resource_shaped [OF assms Own] have r: "shaped_resource r" .
  obtain v where v: "queueNameProperty r = Returned v" and sv: "shaped_queue_name v"
    using shaped_resource_queueNameProperty [OF r] by blast
  from shaped_queue_name_cases [OF sv] show ?thesis
  proof
    assume "v = None"
    with Own v shaped_resource_truthy [OF r] show ?thesis
      by (simp add: and_then_def)
  next
    assume "\<exists>n. v = Some (JString n) \<and> n \<noteq> ''hasOwnProperty'' \<and> n \<noteq> ''__proto__''"
    then obtain n where "v = Some (JString n)" by blast
    with Own v shaped_resource_truthy [OF r] show ?thesis
      by (simp add: and_then_def)
  qed
qed simp_all

lemma two_texts:
  assumes "list_all is_text parts" and "length parts = 2"
  shows "\<exists>a b. parts = [JString a, JString b]"
proof -
  from assms(2) obtain x y where parts: "parts = [x, y]"
    by (cases parts; cases "tl parts") auto
  from assms(1) parts obtain a where "x = JString a"
    by (cases x) simp_all
  moreover from assms(1) parts obtain b where "y = JString b"
    by (cases y) simp_all
  ultimately show ?thesis using parts by simp
qed

lemma resolveQueueName_shaped:
  assumes "shaped_trigger (Some trigger)"
    and "list_all (\<lambda>entry. shaped_resource (snd entry)) rs"
  shows "(\<exists>line. resolveQueueName rs trigger = Returned (Inl line))
       \<or> (\<exists>n. resolveQueueName rs trigger = Returned (Inr (JString n)))"
proof -
  from assms(1) obtain props where t: "trigger = JObject props"
    and a: "shaped_arn (map_of props ''arn'')"
    by (cases trigger) simp_all
  from a show ?thesis
  proof (cases "map_of props ''arn''" rule: shaped_arn.cases)
    case (1 s)
    then show ?thesis
      by (simp add: resolveQueueName_def t and_then_def)
  next
    case (2 aprops)
    with a have plain: "map_of aprops ''hasOwnProperty'' = None"
      and g: "shaped_getAtt (map_of aprops ''Fn::GetAtt'')"
      by simp_all
    from g show ?thesis
    proof (cases "map_of aprops ''Fn::GetAtt''" rule: shaped_getAtt.cases)
      case 1
      with 2 plain show ?thesis
        by (simp add: resolveQueueName_def t and_then_def js_own_def)
    next
      case (2 parts)
      with g have texts: "list_all is_text parts" by simp
      show ?thesis
      proof (cases "length parts = 2")
        case False
        with 2 \<open>map_of props ''arn'' = Some (JObject aprops)\<close> plain show ?thesis
          by (simp add: resolveQueueName_def t and_then_def js_own_def)
      next
        case True
        from two_texts [OF texts True] obtain target attr
          where parts: "parts = [JString target, JString attr]" by blast
        show ?thesis
        proof (cases "attr = ''Arn''")
          case False
          with 2 \<open>map_of props ''arn'' = Some (JObject aprops)\<close> plain parts show ?thesis
            by (simp add: resolveQueueName_def t and_then_def js_own_def index_of_key_pair)
        next
          case True
          have "resolveQueueName rs trigger =
            (case lookup_resource rs target of
               Undefined \<Rightarrow> Returned (Inl (Error, UnknownResource target))
             | Inherited \<Rightarrow> Returned (Inl (Error, ResourceMissingQueueName target))
             | Own resource \<Rightarrow>
                 if \<not> truthy (Some resource)
                 then Returned (Inl (Error, UnknownResource target))
                 else and_then (queueNameProperty resource) (\<lambda>property.
                        case property of
                          None \<Rightarrow> Returned (Inl (Error, ResourceMissingQueueName target))
                        | Some queueName \<Rightarrow> Returned (Inr queueName)))"
            using 2 \<open>map_of props ''arn'' = Some (JObject aprops)\<close> plain parts True
            by (simp add: resolveQueueName_def t and_then_def js_own_def index_of_key_pair
                  to_key_def)
          with resolve_target_shaped [OF assms(2), of target] show ?thesis
            by simp
        qed
      qed
    qed (simp_all add: g)
  qed (simp_all add: a)
qed

lemma start_event_shaped:
  assumes "shaped_event ev"
    and "list_all (\<lambda>entry. shaped_resource (snd entry)) rs"
    and "callable (queueHandlers st)"
  shows "\<exists>st'. start_event rs key fname ev st = (Returned (), st')
           \<and> callable (queueHandlers st')"
proof -
  from assms(1) obtain props where ev: "ev = JObject props"
    and plain: "map_of props ''hasOwnProperty'' = None"
    and t: "shaped_trigger (map_of props ''sqs'')"
    by (cases ev) simp_all
  have own: "js_own ev ''sqs'' = Returned (map_of props ''sqs'')"
    using plain by (auto simp add: js_own_def and_then_def ev)
  show ?thesis
  proof (cases "map_of props ''sqs''")
    case None
    with own assms(3) show ?thesis
      by (simp add: start_event_def)
  next
    case (Some trigger)
    with t have "shaped_trigger (Some trigger)" by simp
    from resolveQueueName_shaped [OF this assms(2)] show ?thesis
    proof
      assume "\<exists>line. resolveQueueName rs trigger = Returned (Inl line)"
      then obtain line where "resolveQueueName rs trigger = Returned (Inl line)" by blast
      with own Some assms(3) show ?thesis
        by (simp add: start_event_def)
    next
      assume "\<exists>n. resolveQueueName rs trigger = Returned (Inr (JString n))"
      then obtain n where n: "resolveQueueName rs trigger = Returned (Inr (JString n))" by blast
      have look: "qh_hasOwnProperty (queueHandlers st) (JString n)
          = Returned (n, map_of (own (queueHandlers st)) n)"
        using assms(3) by (rule qh_hasOwnProperty_string)
      show ?thesis
      proof (cases "map_of (own (queueHandlers st)) n")
        case None
        with own Some n look assms(3) show ?thesis
          by (simp add: start_event_def log_defs)
      next
        case entry: (Some entry)
        show ?thesis
        proof (cases entry)
          case None
          with entry have "map_of (own (queueHandlers st)) n = Some None" by simp
          from qh_set_assign_callable [OF assms(3) this, of fname] own Some n look entry None
          show ?thesis
            by (simp add: start_event_def)
        next
          case (Some handler)
          with own \<open>map_of props ''sqs'' = Some trigger\<close> n look entry assms(3) show ?thesis
            by (simp add: start_event_def log_defs)
        qed
      qed
    qed
  qed
qed

lemma start_events_shaped:
  "list_all shaped_event evs \<Longrightarrow> list_all (\<lambda>entry. shaped_resource (snd entry)) rs \<Longrightarrow>
   callable (queueHandlers st) \<Longrightarrow>
   \<exists>st'. start_events rs key fname evs st = (Returned (), st') \<and> callable (queueHandlers st')"
proof (induction evs arbitrary: st)
  case Nil
  then show ?case by simp
next
  case (Cons ev evs)
  from Cons.prems(1) have ev: "shaped_event ev" and rest: "list_all shaped_event evs"
    by simp_all
  obtain st1 where step: "start_event rs key fname ev st = (Returned (), st1)"
    and c: "callable (queueHandlers st1)"
    using start_event_shaped [OF ev Cons.prems(2,3)] by blast
  from Cons.IH [OF rest Cons.prems(2) c] step show ?case
    by simp
qed

lemma shaped_events_iterate:
  assumes "shaped_events v"
  shows "\<exists>evs. iterate v = Returned evs \<and> list_all shaped_event evs"
  using assms by (cases v rule: shaped_events.cases) simp_all

lemma start_functions_shaped:
  "list_all shaped_function fs \<Longrightarrow> list_all (\<lambda>entry. shaped_resource (snd entry)) rs \<Longrightarrow>
   callable (queueHandlers st) \<Longrightarrow>
   \<exists>st'. start_functions rs fs st = (Returned (), st') \<and> callable (queueHandlers st')"
proof (induction fs arbitrary: st)
  case Nil
  then show ?case by simp
next
  case (Cons f fs)
  obtain key d where f: "f = (key, d)" by (cases f)
  from Cons.prems(1) have rest: "list_all shaped_function fs" by simp
  show ?case
  proof (cases "name d")
    case None
    with f Cons.IH [OF rest Cons.prems(2,3)] show ?thesis by simp
  next
    case (Some fname)
    with Cons.prems(1) f have "shaped_events (events d)"
      by (simp add: shaped_function_def)
    then obtain evs where evs: "iterate (events d) = Returned evs"
      and shaped: "list_all shaped_event evs"
      using shaped_events_iterate by blast
    obtain st1 where pass: "start_events rs key fname evs st = (Returned (), st1)"
      and c: "callable (queueHandlers st1)"
      using start_events_shaped [OF shaped Cons.prems(2,3)] by blast
    from Cons.IH [OF rest Cons.prems(2) c] f Some evs pass show ?thesis
      by simp
  qed
qed

lemma start_shaped:
  assumes "shaped_service svc"
  shows "fst (start svc new_plugin) = Returned ()"
proof (cases "resources svc")
  case None
  then show ?thesis by (simp add: start_def)
next
  case (Some rs)
  with assms have rs: "list_all (\<lambda>entry. shaped_resource (snd entry)) rs"
    and fs: "list_all shaped_function (service_functions svc)"
    by (simp_all add: shaped_service_def)
  have "callable (queueHandlers (log_notice StartingOfflineSQSInvoke new_plugin))"
    by (simp add: callable_def new_plugin_def log_defs)
  from start_resources_shaped [OF rs this] obtain st1
    where one: "start_resources rs (log_notice StartingOfflineSQSInvoke new_plugin)
        = (Returned (), st1)"
      and c: "callable (queueHandlers st1)"
    by blast
  from start_functions_shaped [OF fs rs c] obtain st2
    where two: "start_functions rs (service_functions svc) st1 = (Returned (), st2)"
    by blast
  from Some one two show ?thesis
    by (simp add: start_def)
qed

section \<open>Entries that are skipped\<close>

text \<open>
  Both loops read the plugin state through \<open>queueHandlers\<close> only, so an entry that
  returns and leaves \<open>queueHandlers\<close> alone can be dropped without changing the outcome
  or the handlers of the loop.
\<close>

lemma start_resource_cong:
  assumes "queueHandlers st = queueHandlers st'"
  shows "fst (start_resource entry st) = fst (start_resource entry st')"
    and "queueHandlers (snd (start_resource entry st))
       = queueHandlers (snd (start_resource entry st'))"
  using assms
  by (auto simp add: start_resource_def log_defs
        split: prod.splits outcome.splits option.splits)

lemma start_resources_cong:
  "queueHandlers st = queueHandlers st' \<Longrightarrow>
   fst (start_resources rs st) = fst (start_resources rs st')
   \<and> queueHandlers (snd (start_resources rs st)) = queueHandlers (snd (start_resources rs st'))"
proof (induction rs arbitrary: st st')
  case Nil
  then show ?case by simp
next
  case (Cons entry rs)
  obtain out st1 where one: "start_resource entry st = (out, st1)"
    by (cases "start_resource entry st")
  obtain out' st1' where two: "start_resource entry st' = (out', st1')"
    by (cases "start_resource entry st'")
  from start_resource_cong [OF Cons.prems, of entry] one two
  have out: "out' = out" and same: "queueHandlers st1 = queueHandlers st1'"
    by simp_all
  show ?case
  proof (cases out)
    case (Threw e)
    with one two out same show ?thesis by simp
  next
    case (Returned u)
    with one two out Cons.IH [OF same] show ?thesis by simp
  qed
qed

lemma start_resources_skip:
  assumes "\<And>st. fst (start_resource entry st) = Returned ()"
    and "\<And>st. queueHandlers (snd (start_resource entry st)) = queueHandlers st"
  shows "fst (start_resources (declared @ entry # others) st)
       = fst (start_resources (declared @ others) st)
     \<and> queueHandlers (snd (start_resources (declared @ entry # others) st))
       = queueHandlers (snd (start_resources (declared @ others) st))"
proof (induction declared arbitrary: st)
  case Nil
  obtain out st1 where one: "start_resource entry st = (out, st1)"
    by (cases "start_resource entry st")
  from assms(1) [of st] assms(2) [of st] one
  have "out = Returned ()" and "queueHandlers st1 = queueHandlers st"
    by simp_all
  with one start_resources_cong [of st1 st others] show ?case
    by simp
next
  case (Cons first declared)
  obtain out st1 where one: "start_resource first st = (out, st1)"
    by (cases "start_resource first st")
  show ?case
  proof (cases out)
    case (Threw e)
    with one show ?thesis by simp
  next
    case (Returned u)
    with one Cons.IH [of st1] show ?thesis by simp
  qed
qed

lemma start_event_cong:
  assumes "queueHandlers st = queueHandlers st'"
  shows "fst (start_event rs key fname ev st) = fst (start_event rs key fname ev st')"
    and "queueHandlers (snd (start_event rs key fname ev st))
       = queueHandlers (snd (start_event rs key fname ev st'))"
  using assms
  by (auto simp add: start_event_def log_defs
        split: prod.splits outcome.splits option.splits sum.splits)

lemma start_events_cong:
  "queueHandlers st = queueHandlers st' \<Longrightarrow>
   fst (start_events rs key fname evs st) = fst (start_events rs key fname evs st')
   \<and> queueHandlers (snd (start_events rs key fname evs st))
     = queueHandlers (snd (start_events rs key fname evs st'))"
proof (induction evs arbitrary: st st')
  case Nil
  then show ?case by simp
next
  case (Cons ev evs)
  obtain out st1 where one: "start_event rs key fname ev st = (out, st1)"
    by (cases "start_event rs key fname ev st")
  obtain out' st1' where two: "start_event rs key fname ev st' = (out', st1')"
    by (cases "start_event rs key fname ev st'")
  from start_event_cong [OF Cons.prems, of rs key fname ev] one two
  have out: "out' = out" and same: "queueHandlers st1 = queueHandlers st1'"
    by simp_all
  show ?case
  proof (cases out)
    case (Threw e)
    with one two out same show ?thesis by simp
  next
    case (Returned u)
    with one two out Cons.IH [OF same] show ?thesis by simp
  qed
qed

lemma start_events_skip:
  assumes "\<And>st. fst (start_event rs key fname ev st) = Returned ()"
    and "\<And>st. queueHandlers (snd (start_event rs key fname ev st)) = queueHandlers st"
  shows "fst (start_events rs key fname (earlier @ ev # later) st)
       = fst (start_events rs key fname (earlier @ later) st)
     \<and> queueHandlers (snd (start_events rs key fname (earlier @ ev # later) st))
       = queueHandlers (snd (start_events rs key fname (earlier @ later) st))"
proof (induction earlier arbitrary: st)
  case Nil
  obtain out st1 where one: "start_event rs key fname ev st = (out, st1)"
    by (cases "start_event rs key fname ev st")
  from assms(1) [of st] assms(2) [of st] one
  have "out = Returned ()" and "queueHandlers st1 = queueHandlers st"
    by simp_all
  with one start_events_cong [of st1 st rs key fname later] show ?case
    by simp
next
  case (Cons first earlier)
  obtain out st1 where one: "start_event rs key fname first st = (out, st1)"
    by (cases "start_event rs key fname first st")
  show ?case
  proof (cases out)
    case (Threw e)
    with one show ?thesis by simp
  next
    case (Returned u)
    with one Cons.IH [of st1] show ?thesis by simp
  qed
qed

section \<open>Literal queue references\<close>

text \<open>
  Claim C7. When the \<open>arn\<close> of a queue trigger is a string, the queue name of the
  binding is the segment after the last \<open>:\<close> of that string, whatever else the
  trigger holds: for \<open>p:q\<close> with no \<open>:\<close> in \<open>q\<close> it is \<open>q\<close>, and a
  string without any \<open>:\<close> is its own queue name. In particular
  \<open>arn:aws:sqs:localhost:000000000000:orders\<close> resolves to \<open>orders\<close> (the witness).
\<close>

theorem literal_arn_trailing_segment:
  assumes "CHR '':'' \<notin> set q"
  shows "(map_of props ''arn'' = Some (JString (p @ CHR '':'' # q)) \<longrightarrow>
            resolveQueueName rs (JObject props) = Returned (Inr (JString q)))
       \<and> (map_of props ''arn'' = Some (JString q) \<longrightarrow>
            resolveQueueName rs (JObject props) = Returned (Inr (JString q)))"
  using assms
  by (simp add: resolveQueueName_def and_then_def js_split_append js_split_no_sep
        js_split_not_Nil)

theorem literal_arn_trailing_segment_witness:
  "resolveQueueName []
     (JObject [(''arn'', JString ''arn:aws:sqs:localhost:000000000000:orders'')])
     = Returned (Inr (JString ''orders''))
   \<and> resolveQueueName [] (JObject [(''arn'', JString ''orders'')])
     = Returned (Inr (JString ''orders''))"
proof -
  have h: "CHR '':'' \<notin> set ''orders''"
    by simp
  have full: "map_of [(''arn'', JString ''arn:aws:sqs:localhost:000000000000:orders'')] ''arn''
      = Some (JString (''arn:aws:sqs:localhost:000000000000'' @ CHR '':'' # ''orders''))"
    by simp
  have bare: "map_of [(''arn'', JString ''orders'')] ''arn'' = Some (JString ''orders'')"
    by simp
  note T = literal_arn_trailing_segment [OF h, where rs = "[]"]
  note one = T [where p = "''arn:aws:sqs:localhost:000000000000''"
      and props = "[(''arn'', JString ''arn:aws:sqs:localhost:000000000000:orders'')]",
    THEN conjunct1, THEN mp, OF full]
  note two = T [where props = "[(''arn'', JString ''orders'')]",
    THEN conjunct2, THEN mp, OF bare]
  show ?thesis
    by (intro conjI) (rule one two)+
qed

section \<open>An accepted message\<close>

text \<open>
  Claim C5. The handler map is the one \<open>start\<close> built from the configuration
  (neither \<open>onMessage\<close> nor the handler of \<open>POST /\<close> ever changes it). Take a
  \<open>POST /\<close> whose form has \<open>Action = SendMessage\<close>, a \<open>QueueUrl\<close> whose last
  \<open>/\<close>-segment is the name of a queue of that map with a handler assigned, and a
  non-empty \<open>MessageBody\<close>; the segment is a name, that is, not empty (an empty
  segment is what \<open>onMessage\<close> reports as a missing queue name). If the client
  answers the command with status 200, the handler sends status 200 with content type
  \<open>text/xml\<close> and the body \<open><SendMessageResponse></SendMessageResponse>\<close>, and
  exactly one command is handed to the client: it names the handler of the queue, and
  its payload is one record with the message body as \<open>body\<close>,
  \<open>arn:aws:sqs:localhost:000000000000:\<close> followed by the queue name as
  \<open>eventSourceARN\<close>, the all-zero \<open>messageId\<close>, an empty \<open>receiptHandle\<close>, empty
  \<open>attributes\<close> and \<open>messageAttributes\<close>, \<open>aws:sqs\<close> as \<open>eventSource\<close> and
  \<open>localhost\<close> as \<open>awsRegion\<close>.
\<close>

theorem send_message_invokes_handler:
  assumes "queueHandlers st = queueHandlers (snd (start svc new_plugin))"
    and "form ''Action'' = Some (JString ''SendMessage'')"
    and "form ''QueueUrl'' = Some (JString queueUrl)"
    and "last (js_split CHR ''/'' queueUrl) = queueName" and "queueName \<noteq> []"
    and "map_of (own (queueHandlers st)) queueName = Some (Some handler)"
    and "form ''MessageBody'' = Some (JString messageBody)" and "messageBody \<noteq> []"
    and "command =
      \<lparr>FunctionName = Some handler,
       Payload = \<lparr>Records = [
         \<lparr>messageId = ''00000000-0000-0000-0000-000000000000'',
          receiptHandle = [],
          body = JString messageBody,
          attributes = [],
          messageAttributes = [],
          md5OfBody = [],
          eventSource = ''aws:sqs'',
          eventSourceARN = ''arn:aws:sqs:localhost:000000000000:'' @ queueName,
          awsRegion = ''localhost''\<rparr>]\<rparr>\<rparr>"
    and "client command = Returned response" and "StatusCode response = Some 200"
  shows "post_root client (Some form) st =
     (Returned \<lparr>status = 200, contentType = Some ''text/xml'',
                sent = ''<SendMessageResponse></SendMessageResponse>''\<rparr>,
      (log_notice (InvokingFunction (Some handler) queueName) st)
        \<lparr>invoked := invoked st @ [command]\<rparr>)"
proof -
  from assms(4,5) have url: "queueUrl \<noteq> []"
    by auto
  have "callable (queueHandlers st)"
    using assms(1,6) by (rule assigned_handler_callable)
  then have lookup: "qh_hasOwnProperty (queueHandlers st) (JString queueName)
      = Returned (queueName, Some (Some handler))"
    by (simp add: qh_hasOwnProperty_string assms(6))
  have cmd: "command = \<lparr>FunctionName = Some handler,
      Payload = envelope (JString messageBody) queueName\<rparr>"
    by (simp add: assms(9) envelope_def)
  have "onMessage client form st =
     (Returned True, (log_notice (InvokingFunction (Some handler) queueName) st)
        \<lparr>invoked := invoked st @ [command]\<rparr>)"
    using url assms(3,4,5,7,8,10,11) lookup cmd
    by (simp add: onMessage_def Let_def log_defs)
  then show ?thesis
    by (simp add: post_root_def assms(2))
qed

theorem send_message_invokes_handler_witness:
  "post_root client_ok (Some orders_form) (snd (start orders_service new_plugin)) =
     (Returned \<lparr>status = 200, contentType = Some ''text/xml'',
                sent = ''<SendMessageResponse></SendMessageResponse>''\<rparr>,
      (log_notice (InvokingFunction (Some ''svc-dev-worker'') ''orders'')
         (snd (start orders_service new_plugin)))
        \<lparr>invoked := invoked (snd (start orders_service new_plugin)) @ [
          \<lparr>FunctionName = Some ''svc-dev-worker'',
           Payload = \<lparr>Records = [
             \<lparr>messageId = ''00000000-0000-0000-0000-000000000000'',
              receiptHandle = [],
              body = JString ''hello'',
              attributes = [],
              messageAttributes = [],
              md5OfBody = [],
              eventSource = ''aws:sqs'',
              eventSourceARN = ''arn:aws:sqs:localhost:000000000000:orders'',
              awsRegion = ''localhost''\<rparr>]\<rparr>\<rparr>]\<rparr>)"
proof -
  have built: "queueHandlers (snd (start orders_service new_plugin))
      = queueHandlers (snd (start orders_service new_plugin))"
    by (rule refl)
  have action: "orders_form ''Action'' = Some (JString ''SendMessage'')"
    and url: "orders_form ''QueueUrl'' = Some (JString ''http://localhost:3003/queue/orders'')"
    and msg: "orders_form ''MessageBody'' = Some (JString ''hello'')"
    by (simp_all add: orders_form_def)
  have seg: "last (js_split CHR ''/'' ''http://localhost:3003/queue/orders'') = ''orders''"
    by simp
  have handler: "map_of (own (queueHandlers (snd (start orders_service new_plugin)))) ''orders''
      = Some (Some ''svc-dev-worker'')"
    by code_simp
  have ok: "client_ok c = Returned \<lparr>StatusCode = Some 200\<rparr>" for c
    by (simp add: client_ok_def)
  have status: "StatusCode \<lparr>StatusCode = Some 200\<rparr> = Some 200"
    by simp
  have named: "''orders'' \<noteq> []" and filled: "''hello'' \<noteq> []"
    by simp_all
  note run = send_message_invokes_handler
    [OF built action url seg named handler msg filled refl ok status]
  show ?thesis
    using run by simp
qed

section \<open>Empty form fields\<close>

text \<open>
  Claim C10, as the code has it. \<open>onMessage\<close> tests \<open>QueueUrl\<close> and \<open>MessageBody\<close>
  for emptiness, not for absence, and it tests \<open>QueueUrl\<close> first:
  \<^item> a form with a non-empty \<open>QueueUrl\<close> and a \<open>MessageBody\<close> that is present but
    empty fails with the warning about the missing message body, and the handler of
    a \<open>SendMessage\<close> request answers it with status 400;
  \<^item> a form with a \<open>QueueUrl\<close> that is present but empty fails with the warning
    about the missing queue URL, and is answered with status 400 likewise;
  \<^item> in both cases \<open>onMessage\<close> returns false and hands no command to the client,
    whatever the other fields are.
\<close>

theorem empty_fields_are_rejected_as_missing:
  "(form ''QueueUrl'' = Some (JString queueUrl) \<and> queueUrl \<noteq> []
    \<and> form ''MessageBody'' = Some (JString []) \<longrightarrow>
      onMessage client form st = (Returned False, log_warning MissingMessageBody st)
      \<and> (form ''Action'' = Some (JString ''SendMessage'') \<longrightarrow>
           post_root client (Some form) st =
             (Returned (send_400 []), log_warning MissingMessageBody st)))
   \<and> (form ''QueueUrl'' = Some (JString []) \<longrightarrow>
      onMessage client form st = (Returned False, log_warning MissingQueueURL st)
      \<and> (form ''Action'' = Some (JString ''SendMessage'') \<longrightarrow>
           post_root client (Some form) st =
             (Returned (send_400 []), log_warning MissingQueueURL st)))
   \<and> (form ''MessageBody'' = Some (JString []) \<or> form ''QueueUrl'' = Some (JString []) \<longrightarrow>
      fst (onMessage client form st) = Returned False
      \<and> invoked (snd (onMessage client form st)) = invoked st)"
proof (intro conjI impI)
  assume a: "form ''QueueUrl'' = Some (JString queueUrl) \<and> queueUrl \<noteq> []
    \<and> form ''MessageBody'' = Some (JString [])"
  then show run: "onMessage client form st = (Returned False, log_warning MissingMessageBody st)"
    by (simp add: onMessage_def)
  assume "form ''Action'' = Some (JString ''SendMessage'')"
  then show "post_root client (Some form) st =
      (Returned (send_400 []), log_warning MissingMessageBody st)"
    using run by (rule post_root_rejected)
next
  assume a: "form ''QueueUrl'' = Some (JString [])"
  then show run: "onMessage client form st = (Returned False, log_warning MissingQueueURL st)"
    by (simp add: onMessage_def)
  assume "form ''Action'' = Some (JString ''SendMessage'')"
  then show "post_root client (Some form) st =
      (Returned (send_400 []), log_warning MissingQueueURL st)"
    using run by (rule post_root_rejected)
next
  assume "form ''MessageBody'' = Some (JString []) \<or> form ''QueueUrl'' = Some (JString [])"
  then have "\<not> truthy (form ''QueueUrl'') \<or> \<not> truthy (form ''MessageBody'')"
    by auto
  then have "onMessage client form st = (Returned False, log_warning MissingQueueURL st)
      \<or> onMessage client form st = (Returned False, log_warning MissingMessageBody st)"
    by (auto simp add: onMessage_def)
  then show "fst (onMessage client form st) = Returned False"
    and "invoked (snd (onMessage client form st)) = invoked st"
    by (auto simp add: log_defs)
qed

theorem empty_fields_are_rejected_as_missing_witness:
  "onMessage client_ok (orders_form(''MessageBody'' \<mapsto> JString [])) ready_plugin
     = (Returned False, log_warning MissingMessageBody ready_plugin)
   \<and> post_root client_ok (Some (orders_form(''MessageBody'' \<mapsto> JString []))) ready_plugin
     = (Returned (send_400 []), log_warning MissingMessageBody ready_plugin)
   \<and> onMessage client_ok (orders_form(''QueueUrl'' \<mapsto> JString [])) ready_plugin
     = (Returned False, log_warning MissingQueueURL ready_plugin)
   \<and> post_root client_ok (Some (orders_form(''QueueUrl'' \<mapsto> JString []))) ready_plugin
     = (Returned (send_400 []), log_warning MissingQueueURL ready_plugin)
   \<and> invoked (snd (onMessage client_ok (orders_form(''MessageBody'' \<mapsto> JString []))
        ready_plugin))
     = invoked ready_plugin"
proof -
  let ?noBody = "orders_form(''MessageBody'' \<mapsto> JString [])"
  let ?noUrl = "orders_form(''QueueUrl'' \<mapsto> JString [])"
  have h1: "?noBody ''QueueUrl'' = Some (JString ''http://localhost:3003/queue/orders'')
      \<and> ''http://localhost:3003/queue/orders'' \<noteq> [] \<and> ?noBody ''MessageBody'' = Some (JString [])"
    by (simp add: orders_form_def)
  have a1: "?noBody ''Action'' = Some (JString ''SendMessage'')"
    and a2: "?noUrl ''Action'' = Some (JString ''SendMessage'')"
    by (simp_all add: orders_form_def)
  have h2: "?noUrl ''QueueUrl'' = Some (JString [])"
    by simp
  have h3: "?noBody ''MessageBody'' = Some (JString []) \<or> ?noBody ''QueueUrl'' = Some (JString [])"
    by simp
  note T = empty_fields_are_rejected_as_missing [where client = client_ok and st = ready_plugin]
  note b = T [where form = ?noBody and queueUrl = "''http://localhost:3003/queue/orders''",
    THEN conjunct1, THEN mp, OF h1]
  note u = T [where form = ?noUrl, THEN conjunct2, THEN conjunct1, THEN mp, OF h2]
  note n = T [where form = ?noBody, THEN conjunct2, THEN conjunct2, THEN mp, OF h3]
  show ?thesis
    by (intro conjI)
      (rule b [THEN conjunct1] b [THEN conjunct2, THEN mp, OF a1]
            u [THEN conjunct1] u [THEN conjunct2, THEN mp, OF a2] n [THEN conjunct2])+
qed

text \<open>
  Claim C10 as stated promises the warning about the missing message body for every
  request with an empty \<open>MessageBody\<close>. A request that has an empty \<open>MessageBody\<close>
  and no \<open>QueueUrl\<close> fails on the first test instead: the warning is the one about
  the queue URL, and the log holds no line about the message body.
\<close>

theorem empty_body_without_url_counterexample:
  "onMessage client_ok
     [''Action'' \<mapsto> JString ''SendMessage'', ''MessageBody'' \<mapsto> JString []] ready_plugin
     = (Returned False, log_warning MissingQueueURL ready_plugin)
   \<and> (Warning, MissingMessageBody) \<notin> set (logged (snd (onMessage client_ok
         [''Action'' \<mapsto> JString ''SendMessage'', ''MessageBody'' \<mapsto> JString []] ready_plugin)))"
  by (simp add: onMessage_def log_defs ready_plugin_def)

section \<open>Completion of the scan\<close>

text \<open>
  Claim C2, as the code has it. \<open>start\<close> returns without a fault for every
  configuration of the declared shapes (\<open>shaped_service\<close>): the resources are objects
  whose \<open>Type\<close> and \<open>QueueName\<close>, when present, are strings, every function that
  has a name has an array of events, every queue trigger is an object with an \<open>arn\<close>
  that is a string or an object whose \<open>Fn::GetAtt\<close>, when present, is an array of
  strings, none of the objects on which \<open>start\<close> calls \<open>hasOwnProperty\<close> has a
  property of that name of its own, and no \<open>QueueName\<close> is \<open>hasOwnProperty\<close> or
  \<open>__proto__\<close>. Within the scan, whatever the configuration:
  \<^item> a queue resource without \<open>QueueName\<close> only adds its error line, and the outcome and
    the handlers of the resource loop are what they are without that resource;
  \<^item> a binding whose reference does not resolve only adds its error line, and the
    outcome and the handlers of the loop over the events are what they are without
    that binding;
  \<^item> a named function with an empty array of events changes nothing.
\<close>

theorem resolution_completes_on_declared_shapes:
  assumes "shaped_service svc"
  shows
    "fst (start svc new_plugin) = Returned ()
   \<and> (is_queue r = Returned True \<and> queueNameProperty r = Returned None \<longrightarrow>
        start_resource (rkey, r) st = (Returned (), log_error (QueueMissingQueueName rkey) st)
        \<and> fst (start_resources (declared @ (rkey, r) # others) st)
            = fst (start_resources (declared @ others) st)
        \<and> queueHandlers (snd (start_resources (declared @ (rkey, r) # others) st))
            = queueHandlers (snd (start_resources (declared @ others) st)))
   \<and> (js_own ev ''sqs'' = Returned (Some trigger)
       \<and> resolveQueueName rs trigger = Returned (Inl line) \<longrightarrow>
        start_event rs key fname ev st = (Returned (), st\<lparr>logged := logged st @ [line]\<rparr>)
        \<and> fst (start_events rs key fname (earlier @ ev # later) st)
            = fst (start_events rs key fname (earlier @ later) st)
        \<and> queueHandlers (snd (start_events rs key fname (earlier @ ev # later) st))
            = queueHandlers (snd (start_events rs key fname (earlier @ later) st)))
   \<and> start_functions rs ((key, \<lparr>name = Some fname, events = Some (JArray [])\<rparr>) # fs) st
       = start_functions rs fs st"
proof (intro conjI impI)
  show "fst (start svc new_plugin) = Returned ()"
    using assms by (rule start_shaped)
  show "start_functions rs ((key, \<lparr>name = Some fname, events = Some (JArray [])\<rparr>) # fs) st
       = start_functions rs fs st"
    by simp
next
  assume bad: "is_queue r = Returned True \<and> queueNameProperty r = Returned None"
  then have step: "start_resource (rkey, r) s = (Returned (), log_error (QueueMissingQueueName rkey) s)"
    for s
    by (simp add: start_resource_def)
  show "start_resource (rkey, r) st = (Returned (), log_error (QueueMissingQueueName rkey) st)"
    by (rule step)
  have one: "fst (start_resource (rkey, r) s) = Returned ()" for s
    by (simp add: step)
  have two: "queueHandlers (snd (start_resource (rkey, r) s)) = queueHandlers s" for s
    by (simp add: step log_defs)
  note skip = start_resources_skip [of "(rkey, r)" declared others st, OF one two]
  show "fst (start_resources (declared @ (rkey, r) # others) st)
            = fst (start_resources (declared @ others) st)"
    by (rule skip [THEN conjunct1])
  show "queueHandlers (snd (start_resources (declared @ (rkey, r) # others) st))
            = queueHandlers (snd (start_resources (declared @ others) st))"
    by (rule skip [THEN conjunct2])
next
  assume bad: "js_own ev ''sqs'' = Returned (Some trigger)
       \<and> resolveQueueName rs trigger = Returned (Inl line)"
  then have step: "start_event rs key fname ev s = (Returned (), s\<lparr>logged := logged s @ [line]\<rparr>)"
    for s
    by (simp add: start_event_def)
  show "start_event rs key fname ev st = (Returned (), st\<lparr>logged := logged st @ [line]\<rparr>)"
    by (rule step)
  have one: "fst (start_event rs key fname ev s) = Returned ()" for s
    by (simp add: step)
  have two: "queueHandlers (snd (start_event rs key fname ev s)) = queueHandlers s" for s
    by (simp add: step)
  note skip = start_events_skip [of rs key fname ev earlier later st, OF one two]
  show "fst (start_events rs key fname (earlier @ ev # later) st)
            = fst (start_events rs key fname (earlier @ later) st)"
    by (rule skip [THEN conjunct1])
  show "queueHandlers (snd (start_events rs key fname (earlier @ ev # later) st))
            = queueHandlers (snd (start_events rs key fname (earlier @ later) st))"
    by (rule skip [THEN conjunct2])
qed

theorem resolution_completes_on_declared_shapes_witness:
  "fst (start mixed_service new_plugin) = Returned ()
   \<and> start_resource (''Broken'', broken_queue) new_plugin
       = (Returned (), log_error (QueueMissingQueueName ''Broken'') new_plugin)
   \<and> fst (start_resources ([(''OrdersQueue'', queue_named ''orders'')]
             @ (''Broken'', broken_queue) # [(''Topic'', JObject [(''Type'', JString ''AWS::SNS::Topic'')])])
           new_plugin)
       = fst (start_resources ([(''OrdersQueue'', queue_named ''orders'')]
             @ [(''Topic'', JObject [(''Type'', JString ''AWS::SNS::Topic'')])]) new_plugin)
   \<and> queueHandlers (snd (start_resources ([(''OrdersQueue'', queue_named ''orders'')]
             @ (''Broken'', broken_queue) # [(''Topic'', JObject [(''Type'', JString ''AWS::SNS::Topic'')])])
           new_plugin))
       = queueHandlers (snd (start_resources ([(''OrdersQueue'', queue_named ''orders'')]
             @ [(''Topic'', JObject [(''Type'', JString ''AWS::SNS::Topic'')])]) new_plugin))
   \<and> start_event [(''OrdersQueue'', queue_named ''orders'')] ''worker'' ''svc-dev-worker''
         ref_binding new_plugin
       = (Returned (),
          new_plugin\<lparr>logged := logged new_plugin @
            [(Error, UnknownArnFormat (JObject [(''Ref'', JString ''OrdersQueue'')]))]\<rparr>)
   \<and> queueHandlers (snd (start_events [(''OrdersQueue'', queue_named ''orders'')]
         ''worker'' ''svc-dev-worker'' ([] @ ref_binding # [bound_to orders_arn]) new_plugin))
       = queueHandlers (snd (start_events [(''OrdersQueue'', queue_named ''orders'')]
         ''worker'' ''svc-dev-worker'' ([] @ [bound_to orders_arn]) new_plugin))
   \<and> start_functions [(''OrdersQueue'', queue_named ''orders'')]
         ((''idle'', \<lparr>name = Some ''svc-dev-idle'', events = Some (JArray [])\<rparr>)
            # [(''worker'', worker)]) new_plugin
       = start_functions [(''OrdersQueue'', queue_named ''orders'')] [(''worker'', worker)] new_plugin"
proof -
  let ?rs = "[(''OrdersQueue'', queue_named ''orders'')]"
  let ?others = "[(''Topic'', JObject [(''Type'', JString ''AWS::SNS::Topic'')])]"
  let ?trigger = "JObject [(''arn'', JObject [(''Ref'', JString ''OrdersQueue'')])]"
  let ?line = "(Error, UnknownArnFormat (JObject [(''Ref'', JString ''OrdersQueue'')]))"
  have shaped: "shaped_service mixed_service"
    by code_simp
  have broken: "is_queue broken_queue = Returned True
      \<and> queueNameProperty broken_queue = Returned None"
    by code_simp
  have bad: "js_own ref_binding ''sqs'' = Returned (Some ?trigger)
      \<and> resolveQueueName ?rs ?trigger = Returned (Inl ?line)"
    by code_simp
  note T = resolution_completes_on_declared_shapes
    [OF shaped, where r = broken_queue and rkey = "''Broken''" and st = new_plugin
       and declared = ?rs and others = ?others
       and ev = ref_binding and trigger = ?trigger and rs = ?rs and line = ?line
       and key = "''worker''" and fname = "''svc-dev-worker''"
       and earlier = "[]" and later = "[bound_to orders_arn]"]
  note c1 = T [THEN conjunct1]
  note c2 = T [THEN conjunct2, THEN conjunct1, THEN mp, OF broken]
  note c3 = T [THEN conjunct2, THEN conjunct2, THEN conjunct1, THEN mp, OF bad]
  note U = resolution_completes_on_declared_shapes
    [OF shaped, where rs = ?rs and key = "''idle''" and fname = "''svc-dev-idle''"
       and fs = "[(''worker'', worker)]" and st = new_plugin]
  note c4 = U [THEN conjunct2, THEN conjunct2, THEN conjunct2]
  show ?thesis
    by (intro conjI)
      (rule c1 c2 [THEN conjunct1] c2 [THEN conjunct2, THEN conjunct1]
            c2 [THEN conjunct2, THEN conjunct2]
            c3 [THEN conjunct1] c3 [THEN conjunct2, THEN conjunct2] c4)+
qed

text \<open>
  Claim C2 as stated also covers a named function that has no list of events. There
  \<open>start\<close> does not proceed: iterating \<open>definition.events\<close> throws, the scan ends
  before the summary, and the binding of the next function to \<open>orders\<close> is never
  read, so \<open>orders\<close> stays without handler.
\<close>

theorem function_without_events_counterexample:
  "start events_missing_service new_plugin =
     (Threw (TypeError ''definition.events is not iterable''),
      \<lparr>queueHandlers = \<lparr>own = [(''orders'', None)], protoNull = False\<rparr>,
       logged = [(Notice, StartingOfflineSQSInvoke)],
       invoked = []\<rparr>)"
  by code_simp

section \<open>An invocation that throws\<close>

text \<open>
  Claim C1, evaluated. The claim wants an error thrown by the invocation call
  treated as a failure status: logged, \<open>onMessage\<close> false, a 400 response. With the
  handlers \<open>start\<close> built for the sample service and a client that refuses the
  connection, the handler of \<open>POST /\<close> ends with the error of the client and sends no
  response, and the log ends with the notice of the invocation: no error line. With
  a client that answers status 500, the same request is logged as an error and
  answered with status 400, which is what the lines after the call do for a status.
\<close>

theorem thrown_invocation_error_escapes_dispatch:
  "post_root client_unreachable (Some orders_form) (snd (start orders_service new_plugin)) =
     (Threw (ClientError ''connect ECONNREFUSED 127.0.0.1:3002''),
      \<lparr>queueHandlers = \<lparr>own = [(''orders'', Some ''svc-dev-worker'')], protoNull = False\<rparr>,
       logged = [(Notice, StartingOfflineSQSInvoke),
                 (Notice, QueuesAvailable),
                 (Notice, QueueLine ''orders'' (Some ''svc-dev-worker'')),
                 (Notice, InvokingFunction (Some ''svc-dev-worker'') ''orders'')],
       invoked = [orders_command]\<rparr>)
   \<and> post_root client_failed (Some orders_form) (snd (start orders_service new_plugin)) =
     (Returned (send_400 []),
      \<lparr>queueHandlers = \<lparr>own = [(''orders'', Some ''svc-dev-worker'')], protoNull = False\<rparr>,
       logged = [(Notice, StartingOfflineSQSInvoke),
                 (Notice, QueuesAvailable),
                 (Notice, QueueLine ''orders'' (Some ''svc-dev-worker'')),
                 (Notice, InvokingFunction (Some ''svc-dev-worker'') ''orders''),
                 (Error, ErrorWhileInvokingLambda \<lparr>StatusCode = Some 500\<rparr>)],
       invoked = [orders_command]\<rparr>)"
  by code_simp

section \<open>A queue named \<open>hasOwnProperty\<close>\<close>

text \<open>
  \<open>start\<close> and \<open>onMessage\<close> ask \<open>this.queueHandlers.hasOwnProperty(queueName)\<close>, and
  \<open>start\<close> stores every queue name as a property of that same object. Once a queue
  named \<open>hasOwnProperty\<close> is declared, the property hides the method, and every
  later test throws. The evaluations of this section and the first one of the next
  section come from this.
\<close>

text \<open>
  Claim C4, evaluated. The claim wants the second declaration of a queue name
  ignored with a warning. When the name is \<open>hasOwnProperty\<close>, the second declaration
  throws: \<open>start\<close> ends there, without the warning and without the summary. For the
  name \<open>orders\<close> the second declaration is ignored with the warning.
\<close>

theorem second_declaration_of_shadowing_name_throws:
  "start shadow_twice_service new_plugin =
     (Threw (TypeError ''this.queueHandlers.hasOwnProperty is not a function''),
      \<lparr>queueHandlers = \<lparr>own = [(''hasOwnProperty'', None)], protoNull = False\<rparr>,
       logged = [(Notice, StartingOfflineSQSInvoke)],
       invoked = []\<rparr>)
   \<and> start orders_twice_service new_plugin =
     (Returned (),
      \<lparr>queueHandlers = \<lparr>own = [(''orders'', None)], protoNull = False\<rparr>,
       logged = [(Notice, StartingOfflineSQSInvoke),
                 (Warning, MultipleQueues ''orders''),
                 (Notice, QueuesAvailable),
                 (Notice, QueueLine ''orders'' None)],
       invoked = []\<rparr>)"
  by code_simp

text \<open>
  Claim C3, evaluated. The claim wants a binding that resolves to a declared queue
  without handler to make the function the handler of the queue. With the queues
  \<open>orders\<close> and \<open>hasOwnProperty\<close> declared, the binding of the function
  \<open>svc-dev-worker\<close> to \<open>orders\<close> throws at the test whether \<open>orders\<close> is declared:
  \<open>orders\<close> is left without handler and \<open>start\<close> ends without the summary. Without
  the second queue the same binding makes \<open>svc-dev-worker\<close> the handler of
  \<open>orders\<close>.
\<close>

theorem binding_is_lost_after_shadowing_queue:
  "start orders_then_shadow_service new_plugin =
     (Threw (TypeError ''this.queueHandlers.hasOwnProperty is not a function''),
      \<lparr>queueHandlers = \<lparr>own = [(''orders'', None), (''hasOwnProperty'', None)],
                         protoNull = False\<rparr>,
       logged = [(Notice, StartingOfflineSQSInvoke)],
       invoked = []\<rparr>)
   \<and> start orders_service new_plugin =
     (Returned (),
      \<lparr>queueHandlers = \<lparr>own = [(''orders'', Some ''svc-dev-worker'')], protoNull = False\<rparr>,
       logged = [(Notice, StartingOfflineSQSInvoke),
                 (Notice, QueuesAvailable),
                 (Notice, QueueLine ''orders'' (Some ''svc-dev-worker''))],
       invoked = []\<rparr>)"
  by code_simp

text \<open>
  Claim C9, evaluated. The claim wants the lookup of a queue name that is not in the
  map to return failure. A configuration whose only queue is named
  \<open>hasOwnProperty\<close> passes \<open>start\<close> without fault. At the map it leaves, the lookup
  of the undeclared queue \<open>payments\<close> throws: \<open>onMessage\<close> does not return false and
  logs no warning. At the map of the sample service the same lookup returns false
  with the warning. (That \<open>onMessage\<close> and the handler of \<open>POST /\<close> leave the map as
  it is holds on every path: \<open>onMessage_queueHandlers\<close>,
  \<open>post_root_queueHandlers\<close>.)
\<close>

theorem unknown_queue_lookup_throws_at_shadowed_map:
  "start shadow_only_service new_plugin =
     (Returned (),
      \<lparr>queueHandlers = \<lparr>own = [(''hasOwnProperty'', None)], protoNull = False\<rparr>,
       logged = [(Notice, StartingOfflineSQSInvoke),
                 (Notice, QueuesAvailable),
                 (Notice, QueueLine ''hasOwnProperty'' None)],
       invoked = []\<rparr>)
   \<and> onMessage client_ok payments_form (snd (start shadow_only_service new_plugin)) =
     (Threw (TypeError ''this.queueHandlers.hasOwnProperty is not a function''),
      snd (start shadow_only_service new_plugin))
   \<and> onMessage client_ok payments_form (snd (start orders_service new_plugin)) =
     (Returned False,
      log_warning (UnknownQueueName ''payments'') (snd (start orders_service new_plugin)))"
  by code_simp

section \<open>Requests that get no response\<close>

text \<open>
  Claim C6, evaluated. The claim wants every failing check answered with status 400.
  Two requests whose check cannot succeed end the handler of \<open>POST /\<close> with a
  \<open>TypeError\<close> and without any response: a request for the undeclared queue
  \<open>payments\<close> at the map that \<open>start\<close> leaves for a configuration whose only queue is
  named \<open>hasOwnProperty\<close>, and, at the map of the sample service, a request whose
  \<open>QueueUrl\<close> arrives as an array (\<open>QueueUrl[]=...\<close> in the form), for which
  \<open>queueUrl.split\<close> does not exist. Neither hands a command to the client. At the
  map of the sample service, the request for \<open>payments\<close> is answered with status
  400.
\<close>

theorem failing_check_without_response:
  "fst (start shadow_only_service new_plugin) = Returned ()
   \<and> post_root client_ok (Some payments_form) (snd (start shadow_only_service new_plugin)) =
     (Threw (TypeError ''this.queueHandlers.hasOwnProperty is not a function''),
      snd (start shadow_only_service new_plugin))
   \<and> post_root client_ok
       (Some (orders_form(''QueueUrl'' \<mapsto> JArray [JString ''http://localhost:3003/queue/orders''])))
       (snd (start orders_service new_plugin)) =
     (Threw (TypeError ''queueUrl.split is not a function''),
      snd (start orders_service new_plugin))
   \<and> post_root client_ok (Some payments_form) (snd (start orders_service new_plugin)) =
     (Returned (send_400 []),
      log_warning (UnknownQueueName ''payments'') (snd (start orders_service new_plugin)))"
  by code_simp

section \<open>References of other shapes\<close>

text \<open>
  Claim C8, evaluated. The claim wants every reference that is neither a string nor
  a two-part \<open>Fn::GetAtt\<close> reported as unrecognized and skipped. For a trigger with
  \<open>arn: null\<close>, for one with \<open>Fn::GetAtt: null\<close>, and for one written as a bare
  string (so that \<open>sqs.arn\<close> is \<open>undefined\<close>), the chain of tests on \<open>sqs.arn\<close>
  throws before it reaches the branch that reports: \<open>start\<close> ends with a
  \<open>TypeError\<close>, the log holds the first notice only, and the binding of the next
  function to \<open>orders\<close> is never read.
\<close>

theorem unrecognized_reference_throws_unreported:
  "start null_arn_service new_plugin =
     (Threw (TypeError ''read of a property of null''),
      \<lparr>queueHandlers = \<lparr>own = [(''orders'', None)], protoNull = False\<rparr>,
       logged = [(Notice, StartingOfflineSQSInvoke)],
       invoked = []\<rparr>)
   \<and> start null_getatt_service new_plugin =
     (Threw (TypeError ''read of a property of null''),
      \<lparr>queueHandlers = \<lparr>own = [(''orders'', None)], protoNull = False\<rparr>,
       logged = [(Notice, StartingOfflineSQSInvoke)],
       invoked = []\<rparr>)
   \<and> start shorthand_service new_plugin =
     (Threw (TypeError ''read of a property of undefined''),
      \<lparr>queueHandlers = \<lparr>own = [(''orders'', None)], protoNull = False\<rparr>,
       logged = [(Notice, StartingOfflineSQSInvoke)],
       invoked = []\<rparr>)"
  by code_simp

end
